theory Spec2Isabelle
  imports Complex_Main
begin

section \<open>JavaScript values, objects and the heap\<close>

text \<open>
  The value-object factory of \<^verbatim>\<open>valueObjects/Base.js\<close> builds objects, closures and
  bound functions and compares them with \<^verbatim>\<open>===\<close>, so the model keeps an explicit heap:
  an object is a list of own properties (in insertion order), a frozen flag, for a
  function object the code it runs, and its prototype. References are indices into the
  heap; a new object is appended, so its address is the length of the heap before the
  allocation.

  Scope of the model: objects whose prototype is the built-in one (\<^verbatim>\<open>Object.prototype\<close>,
  for a function \<^verbatim>\<open>Function.prototype\<close>) or \<^verbatim>\<open>null\<close>, own enumerable data properties
  with string keys, and unmodified built-in prototypes. A property read sees own
  properties; of the inherited methods, those that the code calls (\<^verbatim>\<open>valueOf\<close>,
  \<^verbatim>\<open>hasOwnProperty\<close>, \<^verbatim>\<open>bind\<close>) are built in. Objects that inherit from another object
  of the program (instances of classes, \<^verbatim>\<open>Object.create(o)\<close>), getters, proxies, symbols,
  arrays' \<^verbatim>\<open>length\<close> and the own \<^verbatim>\<open>name\<close>/\<^verbatim>\<open>length\<close> of function objects are outside
  it; a statement that depends on the own property names of an arbitrary object says
  that the object is not a function. A number is \<^verbatim>\<open>NaN\<close> or a rational: the code only
  ever compares numbers with \<^verbatim>\<open>===\<close>, for which \<^verbatim>\<open>NaN\<close> is the one value different from
  itself.
\<close>

type_synonym addr = nat

datatype jsnum = NaN | Fin rat

datatype jsval =
    Undefined
  | Null
  | Bool bool
  | Num jsnum
  | Str string
  | Ref addr

text \<open>
  The code of a function object. The three standard methods are closures of one call of
  \<^verbatim>\<open>create\<close>: \<open>ValueOfFn isPrimitive primitiveValue validatedData\<close>,
  \<open>EqualsFn isPrimitive\<close> and \<open>ToStringFn isPrimitive primitiveValue validatedData name\<close>.
  \<open>BoundFn f b\<close> is \<^verbatim>\<open>f.bind(b)\<close>. \<open>HostFn n\<close> is any other function (a custom method,
  a method of a foreign object); its behaviour is given by the runtime environment.
\<close>

datatype fn =
    ValueOfFn bool jsval jsval
  | EqualsFn bool
  | ToStringFn bool jsval jsval string
  | BoundFn fn jsval
  | HostFn nat

text \<open>
  The prototype of an object: the built-in prototype, from which the object inherits
  \<^verbatim>\<open>valueOf\<close> and \<^verbatim>\<open>hasOwnProperty\<close> (an object literal, the result of a spread, a
  function), or \<^verbatim>\<open>null\<close>, as for \<^verbatim>\<open>Object.create(null)\<close>, which inherits nothing.
\<close>

datatype proto = BuiltinPrototype | NullPrototype

record obj =
  props :: "(string \<times> jsval) list"
  frozen :: bool
  callable :: "fn option"
  proto :: proto

type_synonym heap = "obj list"

datatype issue = Issue (message: string) (path: "string list")

text \<open>
  What a \<^verbatim>\<open>throw\<close> carries. \<open>ZodError\<close> is the validation engine's error with its ordered
  issues; \<open>ValidationError message cause objectType input\<close> is the library's own error
  (\<^verbatim>\<open>new ValidationError(message, cause, {objectType, input})\<close>); \<open>Error\<close> is a plain
  \<^verbatim>\<open>new Error(message)\<close>; \<open>TypeError\<close> is raised by the language itself.
\<close>

datatype exn =
    ZodError "issue list"
  | ValidationError string exn string jsval
  | Error string
  | TypeError string
  | Thrown jsval

type_synonym 'a comp = "heap \<Rightarrow> (exn + 'a) \<times> heap"

text \<open>
  The runtime environment: the behaviour of host functions (receiver, arguments, heap),
  and the two conversions to text that \<^verbatim>\<open>toString\<close> uses, \<^verbatim>\<open>String(v)\<close> and
  \<^verbatim>\<open>JSON.stringify(v)\<close>.
\<close>

record rt =
  host :: "nat \<Rightarrow> jsval \<Rightarrow> jsval list \<Rightarrow> jsval comp"
  to_String :: "heap \<Rightarrow> jsval \<Rightarrow> exn + string"
  stringify :: "heap \<Rightarrow> jsval \<Rightarrow> exn + string"

definition lookup :: "heap \<Rightarrow> addr \<Rightarrow> obj option" where
  "lookup h a = (if a < length h then Some (h ! a) else None)"

definition alloc :: "obj \<Rightarrow> heap \<Rightarrow> addr \<times> heap" where
  "alloc ob h = (length h, h @ [ob])"

text \<open>An object literal \<^verbatim>\<open>{k1: v1, ...}\<close>, and a new function object.\<close>

definition plain_obj :: "(string \<times> jsval) list \<Rightarrow> obj" where
  "plain_obj ps = \<lparr>props = ps, frozen = False, callable = None, proto = BuiltinPrototype\<rparr>"

definition fn_obj :: "fn \<Rightarrow> obj" where
  "fn_obj f = \<lparr>props = [], frozen = False, callable = Some f, proto = BuiltinPrototype\<rparr>"

subsection \<open>Primitive operations of the language\<close>

fun nullish :: "jsval \<Rightarrow> bool" where
  "nullish Undefined = True"
| "nullish Null = True"
| "nullish _ = False"

text \<open>Truthiness, as \<^verbatim>\<open>!x\<close>, \<^verbatim>\<open>x ? a : b\<close> and \<^verbatim>\<open>x || y\<close> test it.\<close>

fun truthy :: "jsval \<Rightarrow> bool" where
  "truthy Undefined = False"
| "truthy Null = False"
| "truthy (Bool b) = b"
| "truthy (Num NaN) = False"
| "truthy (Num (Fin q)) = (q \<noteq> 0)"
| "truthy (Str s) = (s \<noteq> [])"
| "truthy (Ref a) = True"

text \<open>\<^verbatim>\<open>a === b\<close>: no conversion, objects by reference, \<^verbatim>\<open>NaN\<close> unequal to everything.\<close>

fun strict_eq :: "jsval \<Rightarrow> jsval \<Rightarrow> bool" where
  "strict_eq (Num NaN) _ = False"
| "strict_eq _ (Num NaN) = False"
| "strict_eq a b = (a = b)"

definition code_of :: "heap \<Rightarrow> jsval \<Rightarrow> fn option" where
  "code_of h v = (case v of Ref a \<Rightarrow> (case lookup h a of Some ob \<Rightarrow> callable ob | None \<Rightarrow> None)
                   | _ \<Rightarrow> None)"

definition typeof :: "heap \<Rightarrow> jsval \<Rightarrow> string" where
  "typeof h v = (case v of
       Undefined \<Rightarrow> ''undefined''
     | Null \<Rightarrow> ''object''
     | Bool b \<Rightarrow> ''boolean''
     | Num n \<Rightarrow> ''number''
     | Str s \<Rightarrow> ''string''
     | Ref a \<Rightarrow> (if code_of h (Ref a) = None then ''object'' else ''function''))"

fun show_nat :: "nat \<Rightarrow> string" where
  "show_nat n = (if n < 10 then [''0123456789'' ! n]
                 else show_nat (n div 10) @ [''0123456789'' ! (n mod 10)])"

declare show_nat.simps [simp del]

text \<open>The indexed characters of a string, as a spread or \<^verbatim>\<open>Object.keys\<close> sees them.\<close>

definition str_chars :: "string \<Rightarrow> (string \<times> jsval) list" where
  "str_chars s = map (\<lambda>i. (show_nat i, Str [s ! i])) [0 ..< length s]"

text \<open>
  Own enumerable properties: what \<^verbatim>\<open>{...v}\<close>, \<^verbatim>\<open>Object.keys(v)\<close> and
  \<^verbatim>\<open>Object.entries(v)\<close> enumerate. Spreading \<^verbatim>\<open>null\<close>, \<^verbatim>\<open>undefined\<close>, a number or a
  boolean contributes nothing.
\<close>

definition spread :: "heap \<Rightarrow> jsval \<Rightarrow> (string \<times> jsval) list" where
  "spread h v = (case v of
       Ref a \<Rightarrow> (case lookup h a of Some ob \<Rightarrow> props ob | None \<Rightarrow> [])
     | Str s \<Rightarrow> str_chars s
     | _ \<Rightarrow> [])"

text \<open>All own properties, as \<^verbatim>\<open>Object.getOwnPropertyNames\<close> and \<^verbatim>\<open>hasOwnProperty\<close> see them.\<close>

definition own_props :: "heap \<Rightarrow> jsval \<Rightarrow> (string \<times> jsval) list" where
  "own_props h v = (case v of
       Str s \<Rightarrow> str_chars s @ [(''length'', Num (Fin (of_nat (length s))))]
     | _ \<Rightarrow> spread h v)"

text \<open>\<^verbatim>\<open>v[k]\<close> for an own property; a missing property reads as \<^verbatim>\<open>undefined\<close>.\<close>

definition get :: "heap \<Rightarrow> jsval \<Rightarrow> string \<Rightarrow> jsval" where
  "get h v k = (case map_of (own_props h v) k of Some x \<Rightarrow> x | None \<Rightarrow> Undefined)"

text \<open>
  A method found on the object itself, which shadows the inherited built-in. Primitives
  have no own methods.
\<close>

definition own_method :: "heap \<Rightarrow> jsval \<Rightarrow> string \<Rightarrow> jsval option" where
  "own_method h v k = (case v of
       Ref a \<Rightarrow> (case lookup h a of Some ob \<Rightarrow> map_of (props ob) k | None \<Rightarrow> None)
     | _ \<Rightarrow> None)"

text \<open>
  Whether \<open>v\<close> inherits the built-in methods \<^verbatim>\<open>valueOf\<close> and \<^verbatim>\<open>hasOwnProperty\<close>: a
  string, a number and a boolean do (from the prototype of their wrapper), an object
  does unless its prototype is \<^verbatim>\<open>null\<close>; \<^verbatim>\<open>null\<close> and \<^verbatim>\<open>undefined\<close> have no properties.
\<close>

definition inherits_builtins :: "heap \<Rightarrow> jsval \<Rightarrow> bool" where
  "inherits_builtins h v = (case v of
       Undefined \<Rightarrow> False
     | Null \<Rightarrow> False
     | Ref a \<Rightarrow> (case lookup h a of Some ob \<Rightarrow> proto ob = BuiltinPrototype | None \<Rightarrow> False)
     | _ \<Rightarrow> True)"

text \<open>
  An object literal: a later property with the same key replaces the value and keeps the
  position of the first.
\<close>

fun put :: "string \<Rightarrow> jsval \<Rightarrow> (string \<times> jsval) list \<Rightarrow> (string \<times> jsval) list" where
  "put k v [] = [(k, v)]"
| "put k v ((k', v') # ps) = (if k = k' then (k, v) # ps else (k', v') # put k v ps)"

definition obj_lit :: "(string \<times> jsval) list \<Rightarrow> (string \<times> jsval) list" where
  "obj_lit kvs = foldl (\<lambda>ps (k, v). put k v ps) [] kvs"

fun arg0 :: "jsval list \<Rightarrow> jsval" where
  "arg0 [] = Undefined"
| "arg0 (x # xs) = x"

section \<open>The standard methods of a value object\<close>

text \<open>
  \<^verbatim>\<open>valueOf()\<close> of the prototype built by \<^verbatim>\<open>create\<close>. \<^verbatim>\<open>Object.keys\<close> rejects
  \<^verbatim>\<open>null\<close> and \<^verbatim>\<open>undefined\<close>; \<open>validatedData\<close> is read when the method runs.
\<close>

definition valueOf_body :: "bool \<Rightarrow> jsval \<Rightarrow> jsval \<Rightarrow> jsval \<Rightarrow> jsval comp" where
  "valueOf_body isPrimitive primitiveValue validatedData this h =
     (if isPrimitive then (Inr primitiveValue, h)
      else if nullish validatedData
        then (Inl (TypeError ''Cannot convert undefined or null to object''), h)
      else
        let keys = map fst (spread h validatedData) in
        if length keys = 1 \<and> typeof h (get h validatedData (keys ! 0)) \<noteq> ''object''
        then (Inr (get h validatedData (keys ! 0)), h)
        else (Inr this, h))"

definition toString_body :: "rt \<Rightarrow> bool \<Rightarrow> jsval \<Rightarrow> jsval \<Rightarrow> string \<Rightarrow> jsval comp" where
  "toString_body r isPrimitive primitiveValue validatedData name h =
     (if isPrimitive then
        (case to_String r h primitiveValue of
           Inl e \<Rightarrow> (Inl e, h)
         | Inr s \<Rightarrow> (Inr (Str s), h))
      else
        (case stringify r h validatedData of
           Inl e \<Rightarrow> (Inl e, h)
         | Inr s \<Rightarrow> (Inr (Str (name @ ''('' @ s @ '')'')), h)))"

text \<open>The names of the own properties of \<open>v\<close> whose value is not a function.\<close>

definition data_props :: "heap \<Rightarrow> jsval \<Rightarrow> string list" where
  "data_props h v =
     filter (\<lambda>prop. typeof h (get h v prop) \<noteq> ''function'') (map fst (own_props h v))"

text \<open>
  Calling a function object. \<open>call_fn\<close> runs a piece of code with a receiver and
  arguments; \<open>call_val\<close> calls a value (a \<^verbatim>\<open>TypeError\<close> when it is not a function);
  \<open>props_loop\<close> is the \<^verbatim>\<open>for (const prop of thisDataProps)\<close> loop of \<^verbatim>\<open>equals\<close>.
  \<^verbatim>\<open>equals\<close> calls methods it finds on its receiver and on its argument, which may be any
  function, \<^verbatim>\<open>equals\<close> itself included; such a nested call gets no argument or a property
  name, never an object, which is why the recursion ends.

  A method is looked up on the object itself first and then on its prototype:
  \<^verbatim>\<open>this.valueOf()\<close> and \<^verbatim>\<open>other.hasOwnProperty(prop)\<close> run the own property if there is
  one, the built-in if the built-in prototype is inherited, and throw a \<^verbatim>\<open>TypeError\<close>
  (calling \<^verbatim>\<open>undefined\<close>) otherwise. In \<^verbatim>\<open>other.valueOf ? other.valueOf() : other\<close> the
  inherited built-in returns \<open>other\<close>, which is also the value of the expression when
  \<open>other\<close> has no \<^verbatim>\<open>valueOf\<close> at all.
\<close>

function call_fn :: "rt \<Rightarrow> fn \<Rightarrow> jsval \<Rightarrow> jsval list \<Rightarrow> jsval comp"
  and call_val :: "rt \<Rightarrow> jsval \<Rightarrow> jsval \<Rightarrow> jsval list \<Rightarrow> jsval comp"
  and props_loop :: "rt \<Rightarrow> jsval \<Rightarrow> jsval \<Rightarrow> string list \<Rightarrow> jsval comp"
where
  "call_fn r (ValueOfFn isPrimitive primitiveValue validatedData) this args h =
     valueOf_body isPrimitive primitiveValue validatedData this h"
| "call_fn r (ToStringFn isPrimitive primitiveValue validatedData name) this args h =
     toString_body r isPrimitive primitiveValue validatedData name h"
| "call_fn r (HostFn n) this args h = host r n this args h"
| "call_fn r (BoundFn f b) this args h = call_fn r f b args h"
| "call_fn r (EqualsFn isPrimitive) this args h =
     (let other = arg0 args in
      if nullish other then (Inr (Bool False), h)
      else if strict_eq this other then (Inr (Bool True), h)
      else if isPrimitive then
        (case (if nullish this then (Inl (TypeError ''Cannot read properties of undefined''), h)
               else case own_method h this ''valueOf'' of
                      None \<Rightarrow>
                        if inherits_builtins h this then (Inr this, h)
                        else (Inl (TypeError ''this.valueOf is not a function''), h)
                    | Some c \<Rightarrow> call_val r c this [] h) of
           (Inl e, h1) \<Rightarrow> (Inl e, h1)
         | (Inr a, h1) \<Rightarrow>
             (case (case own_method h1 other ''valueOf'' of
                      None \<Rightarrow> (Inr other, h1)
                    | Some c \<Rightarrow> if truthy c then call_val r c other [] h1 else (Inr other, h1)) of
                (Inl e, h2) \<Rightarrow> (Inl e, h2)
              | (Inr b, h2) \<Rightarrow> (Inr (Bool (strict_eq a b)), h2)))
      else if nullish this
        then (Inl (TypeError ''Cannot convert undefined or null to object''), h)
      else
        let thisDataProps = data_props h this;
            otherDataProps = data_props h other
        in if length thisDataProps \<noteq> length otherDataProps then (Inr (Bool False), h)
           else props_loop r this other thisDataProps h)"
| "call_val r c this args h =
     (case code_of h c of
        None \<Rightarrow> (Inl (TypeError ''not a function''), h)
      | Some f \<Rightarrow> call_fn r f this args h)"
| "props_loop r this other [] h = (Inr (Bool True), h)"
| "props_loop r this other (prop # rest) h =
     (case (case own_method h other ''hasOwnProperty'' of
              None \<Rightarrow>
                if inherits_builtins h other
                then (Inr (Bool (prop \<in> set (map fst (own_props h other)))), h)
                else (Inl (TypeError ''other.hasOwnProperty is not a function''), h)
            | Some c \<Rightarrow> call_val r c other [Str prop] h) of
        (Inl e, h1) \<Rightarrow> (Inl e, h1)
      | (Inr res, h1) \<Rightarrow>
          if \<not> truthy res \<or> \<not> strict_eq (get h1 this prop) (get h1 other prop)
          then (Inr (Bool False), h1)
          else props_loop r this other rest h1)"
  by pat_completeness auto

text \<open>
  The rank of a call: 2 when the first argument is an object, 1 when it is another value
  that is not \<^verbatim>\<open>null\<close> or \<^verbatim>\<open>undefined\<close>, 0 otherwise.
\<close>

definition arg_rank :: "jsval list \<Rightarrow> nat" where
  "arg_rank args = (case arg0 args of Ref a \<Rightarrow> 2 | Undefined \<Rightarrow> 0 | Null \<Rightarrow> 0 | _ \<Rightarrow> 1)"

termination call_fn
proof (relation "inv_image (less_than <*lex*> less_than)
    (\<lambda>x. case x of
       Inl (r, f, this, args, h) \<Rightarrow> (4 * arg_rank args + 1, size f)
     | Inr (Inl (r, c, this, args, h)) \<Rightarrow> (4 * arg_rank args + 2, 0)
     | Inr (Inr (r, this, other, ps, h)) \<Rightarrow> (4 * arg_rank [other], length ps))",
    goal_cases)
  case 1
  show ?case by (intro wf_inv_image wf_lex_prod wf_less_than)
next
  case 2
  then show ?case by simp
next
  case (3 r isPrimitive this args)
  then have "0 < arg_rank args"
    by (cases "arg0 args") (auto simp: arg_rank_def)
  then show ?case by (simp add: arg_rank_def)
next
  case (4 r isPrimitive this args)
  then have "0 < arg_rank args"
    by (cases "arg0 args") (auto simp: arg_rank_def)
  then show ?case by (simp add: arg_rank_def)
next
  case (5 r isPrimitive this args h x xa xb)
  then show ?case by (cases args) (simp_all add: arg_rank_def)
next
  case 6
  then show ?case by simp
next
  case (7 r this other k rest h x2)
  then have "arg_rank [other] = 2"
    by (cases other) (auto simp: own_method_def arg_rank_def)
  then show ?case by (simp add: arg_rank_def)
next
  case 8
  then show ?case by simp
qed

section \<open>The value-object factory\<close>

text \<open>
  The schema is the external validation engine's object. The factory uses two things of
  it: the name of its constructor (\<^verbatim>\<open>schema.constructor?.name\<close>) and \<^verbatim>\<open>parse\<close>, which
  returns the validated data or throws, and may allocate.
\<close>

record schema =
  ctor :: string
  parse :: "jsval \<Rightarrow> jsval comp"

text \<open>
  A \<^verbatim>\<open>methodsFactory\<close> argument is tested with \<^verbatim>\<open>typeof ... !== 'function'\<close>: it is either
  some value that is not a function, or a function. The function is called with the
  handle \<^verbatim>\<open>{create, schema, extend}\<close> of the factory it belongs to and returns the methods
  object; it is modelled as a computation on the heap that already refers to that handle.
\<close>

datatype mf_arg = NotCallable jsval | MethodsFactory "jsval comp"

record vo_options =
  opt_name :: string
  opt_schema :: "schema option"
  opt_methodsFactory :: mf_arg
  opt_overrideIsPrimitive :: "bool option"

text \<open>What the closures \<^verbatim>\<open>create\<close> and \<^verbatim>\<open>extend\<close> of one call of \<^verbatim>\<open>valueObject\<close> share.\<close>

record factory =
  vo_name :: string
  vo_schema :: schema
  vo_methodsFactory :: "jsval comp"
  vo_overrideIsPrimitive :: "bool option"
  vo_isPrimitive :: bool

definition valueObject :: "vo_options \<Rightarrow> exn + factory" where
  "valueObject opts =
     (if opt_name opts = [] then Inl (Error ''Value object name is required'')
      else case opt_schema opts of
        None \<Rightarrow> Inl (Error ''Value object schema is required'')
      | Some sc \<Rightarrow>
          (case opt_methodsFactory opts of
             NotCallable v \<Rightarrow> Inl (Error ''Method factory is required'')
           | MethodsFactory mf \<Rightarrow>
               Inr \<lparr>vo_name = opt_name opts,
                    vo_schema = sc,
                    vo_methodsFactory = mf,
                    vo_overrideIsPrimitive = opt_overrideIsPrimitive opts,
                    vo_isPrimitive =
                      (ctor sc = ''ZodString'' \<or> ctor sc = ''ZodNumber'' \<or>
                       ctor sc = ''ZodBoolean'' \<or> opt_overrideIsPrimitive opts = Some True)\<rparr>))"

fun join :: "string \<Rightarrow> string list \<Rightarrow> string" where
  "join sep [] = []"
| "join sep [x] = x"
| "join sep (x # y # ys) = x @ sep @ join sep (y # ys)"

text \<open>The \<^verbatim>\<open>catch\<close> block of \<^verbatim>\<open>create\<close>.\<close>

definition rethrow :: "string \<Rightarrow> jsval \<Rightarrow> exn \<Rightarrow> exn" where
  "rethrow name data error =
     (case error of
        ZodError errors \<Rightarrow>
          ValidationError (''Invalid '' @ name @ '': '' @ join '', '' (map message errors))
            error name data
      | _ \<Rightarrow> error)"

text \<open>\<^verbatim>\<open>Object.entries(methods)\<close>.\<close>

definition entries :: "heap \<Rightarrow> jsval \<Rightarrow> exn + (string \<times> jsval) list" where
  "entries h v =
     (if nullish v then Inl (TypeError ''Cannot convert undefined or null to object'')
      else Inr (spread h v))"

text \<open>\<^verbatim>\<open>methodFn.bind(prototype)\<close>, with the built-in \<^verbatim>\<open>Function.prototype.bind\<close>.\<close>

definition bind_method :: "jsval \<Rightarrow> jsval \<Rightarrow> jsval comp" where
  "bind_method methodFn b h =
     (case code_of h methodFn of
        None \<Rightarrow> (Inl (TypeError ''bind is not a function''), h)
      | Some f \<Rightarrow> (case alloc (fn_obj (BoundFn f b)) h of (a, h') \<Rightarrow> (Inr (Ref a), h')))"

fun bind_all ::
  "(string \<times> jsval) list \<Rightarrow> jsval \<Rightarrow> (string \<times> jsval) list \<Rightarrow> (string \<times> jsval) list comp"
where
  "bind_all [] prototype boundMethods h = (Inr boundMethods, h)"
| "bind_all ((methodName, methodFn) # rest) prototype boundMethods h =
     (case bind_method methodFn prototype h of
        (Inl e, h') \<Rightarrow> (Inl e, h')
      | (Inr b, h') \<Rightarrow> bind_all rest prototype (put methodName b boundMethods) h')"

text \<open>Sequencing of computations that may throw: the first exception ends the run.\<close>

definition seq :: "'a comp \<Rightarrow> ('a \<Rightarrow> 'b comp) \<Rightarrow> 'b comp" where
  "seq m f h = (case m h of (Inl e, h') \<Rightarrow> (Inl e, h') | (Inr x, h') \<Rightarrow> f x h')"

definition new_obj :: "obj \<Rightarrow> jsval comp" where
  "new_obj ob h = (case alloc ob h of (a, h') \<Rightarrow> (Inr (Ref a), h'))"

definition pure_op :: "(heap \<Rightarrow> exn + 'a) \<Rightarrow> 'a comp" where
  "pure_op f h = (f h, h)"

text \<open>
  The object literal \<^verbatim>\<open>prototype\<close>: the validated fields, then the three standard
  methods, which are new closures at every call of \<^verbatim>\<open>create\<close>.
\<close>

definition make_prototype :: "factory \<Rightarrow> jsval \<Rightarrow> jsval comp" where
  "make_prototype F validatedData =
     (let primitiveValue = (if vo_isPrimitive F then validatedData else Undefined) in
      seq (pure_op (\<lambda>h. Inr (spread h validatedData))) (\<lambda>fields.
      seq (new_obj (fn_obj (ValueOfFn (vo_isPrimitive F) primitiveValue validatedData)))
        (\<lambda>valueOf.
      seq (new_obj (fn_obj (EqualsFn (vo_isPrimitive F)))) (\<lambda>equals.
      seq (new_obj (fn_obj (ToStringFn (vo_isPrimitive F) primitiveValue validatedData
            (vo_name F)))) (\<lambda>toString.
      new_obj (plain_obj (obj_lit (fields @
        [(''valueOf'', valueOf), (''equals'', equals), (''toString'', toString)]))))))))"

text \<open>
  The returned object: \<^verbatim>\<open>Object.freeze({...validatedData, valueOf: ..., equals: ...,
  toString: ..., ...boundMethods})\<close>, the standard methods read from the prototype and
  bound to it.
\<close>

definition frozen_instance :: "jsval \<Rightarrow> jsval \<Rightarrow> (string \<times> jsval) list \<Rightarrow> jsval comp" where
  "frozen_instance validatedData prototype boundMethods =
     seq (pure_op (\<lambda>h. Inr (spread h validatedData))) (\<lambda>fields.
     seq (\<lambda>h. bind_method (get h prototype ''valueOf'') prototype h) (\<lambda>valueOf.
     seq (\<lambda>h. bind_method (get h prototype ''equals'') prototype h) (\<lambda>equals.
     seq (\<lambda>h. bind_method (get h prototype ''toString'') prototype h) (\<lambda>toString.
     new_obj \<lparr>props = obj_lit (fields @
                 [(''valueOf'', valueOf), (''equals'', equals), (''toString'', toString)] @
                 boundMethods),
              frozen = True, callable = None, proto = BuiltinPrototype\<rparr>))))"

text \<open>The \<^verbatim>\<open>try\<close> block of \<^verbatim>\<open>create\<close>.\<close>

definition create_try :: "factory \<Rightarrow> jsval \<Rightarrow> jsval comp" where
  "create_try F data =
     seq (parse (vo_schema F) data) (\<lambda>validatedData.
     seq (make_prototype F validatedData) (\<lambda>prototype.
     seq (vo_methodsFactory F) (\<lambda>methods.
     seq (pure_op (\<lambda>h. entries h methods)) (\<lambda>es.
     seq (bind_all es prototype []) (\<lambda>boundMethods.
     frozen_instance validatedData prototype boundMethods)))))"

definition create :: "factory \<Rightarrow> jsval \<Rightarrow> jsval comp" where
  "create F data h =
     (case create_try F data h of
        (Inl error, h') \<Rightarrow> (Inl (rethrow (vo_name F) data error), h')
      | (Inr v, h') \<Rightarrow> (Inr v, h'))"

text \<open>
  \<^verbatim>\<open>extend\<close>. The schema transformer is a caller's function from the parent schema to
  the new one; it may throw, and it may return nothing.
\<close>

record extend_options =
  ext_name :: string
  ext_schema :: "(schema \<Rightarrow> exn + schema option) option"
  ext_methodsFactory :: mf_arg

section \<open>Writing to objects\<close>

text \<open>
  What a caller can do to an object it holds: assign a property, delete one, or redefine
  one with \<^verbatim>\<open>Object.defineProperty\<close>. On a frozen object an assignment or a deletion is
  ignored in sloppy-mode code and throws a \<^verbatim>\<open>TypeError\<close> in strict-mode code (the flag
  \<open>strict\<close>); \<^verbatim>\<open>Object.defineProperty\<close> always throws. None of them changes the object.
\<close>

datatype heap_write =
    Assign bool addr string jsval
  | Delete bool addr string
  | DefineProperty addr string jsval

definition set_props :: "addr \<Rightarrow> (string \<times> jsval) list \<Rightarrow> heap \<Rightarrow> heap" where
  "set_props a ps h = h[a := (h ! a)\<lparr>props := ps\<rparr>]"

fun attempt :: "heap_write \<Rightarrow> unit comp" where
  "attempt (Assign strict a k v) h =
     (case lookup h a of
        None \<Rightarrow> (Inl (TypeError ''Cannot set properties of undefined''), h)
      | Some ob \<Rightarrow>
          if frozen ob then
            (if strict then (Inl (TypeError ''Cannot assign to read only property''), h)
             else (Inr (), h))
          else (Inr (), set_props a (put k v (props ob)) h))"
| "attempt (Delete strict a k) h =
     (case lookup h a of
        None \<Rightarrow> (Inl (TypeError ''Cannot convert undefined or null to object''), h)
      | Some ob \<Rightarrow>
          if frozen ob then
            (if strict \<and> k \<in> set (map fst (props ob))
             then (Inl (TypeError ''Cannot delete property''), h)
             else (Inr (), h))
          else (Inr (), set_props a (filter (\<lambda>kv. fst kv \<noteq> k) (props ob)) h))"
| "attempt (DefineProperty a k v) h =
     (case lookup h a of
        None \<Rightarrow> (Inl (TypeError ''Object.defineProperty called on non-object''), h)
      | Some ob \<Rightarrow>
          if frozen ob then (Inl (TypeError ''Cannot redefine property''), h)
          else (Inr (), set_props a (put k v (props ob)) h))"

text \<open>A caller's sequence of writes, each attempted whatever the earlier ones did.\<close>

fun attempts :: "heap_write list \<Rightarrow> heap \<Rightarrow> heap" where
  "attempts [] h = h"
| "attempts (w # ws) h = attempts ws (snd (attempt w h))"

section \<open>Schemas for nested value objects\<close>

text \<open>
  A method call \<^verbatim>\<open>v.m(args)\<close>: an own property shadows the inherited method; of the
  inherited methods only \<^verbatim>\<open>valueOf\<close> is called this way, and it returns its receiver.
  An object with the prototype \<^verbatim>\<open>null\<close> inherits no method.
\<close>

definition invoke :: "rt \<Rightarrow> jsval \<Rightarrow> string \<Rightarrow> jsval list \<Rightarrow> jsval comp" where
  "invoke r v m args h =
     (if nullish v then (Inl (TypeError ''Cannot read properties of undefined''), h)
      else case own_method h v m of
        Some c \<Rightarrow> call_val r c v args h
      | None \<Rightarrow>
          if m = ''valueOf'' \<and> inherits_builtins h v then (Inr v, h)
          else (Inl (TypeError (m @ '' is not a function'')), h))"

text \<open>
  The validation engine's \<^verbatim>\<open>z.custom(check, {message})\<close>: the value passes unchanged
  when \<open>check\<close> returns a truthy value, and fails with one issue carrying the message
  otherwise.
\<close>

definition z_custom :: "(jsval \<Rightarrow> jsval comp) \<Rightarrow> string \<Rightarrow> schema" where
  "z_custom check msg =
     \<lparr>ctor = ''ZodEffects'',
      parse = (\<lambda>val. seq (check val) (\<lambda>res h.
                if truthy res then (Inr val, h)
                else (Inl (ZodError [Issue msg []]), h)))\<rparr>"

record vos_options =
  typeName :: "string option"
  typeCheck :: "(jsval \<Rightarrow> jsval comp) option"

text \<open>
  \<^verbatim>\<open>val instanceof Object\<close>: an object or a function whose prototype is the built-in one;
  no primitive, and no object with the prototype \<^verbatim>\<open>null\<close>.
\<close>

definition instanceof_Object :: "heap \<Rightarrow> jsval \<Rightarrow> bool" where
  "instanceof_Object h v = (case v of
       Ref a \<Rightarrow> (case lookup h a of Some ob \<Rightarrow> proto ob = BuiltinPrototype | None \<Rightarrow> False)
     | _ \<Rightarrow> False)"

definition valueObjectSchema :: "vos_options \<Rightarrow> schema" where
  "valueObjectSchema options =
     z_custom
       (\<lambda>val h.
          let isValueObject =
                (instanceof_Object h val \<and> typeof h (get h val ''equals'') = ''function'')
          in case typeCheck options of
               Some check \<Rightarrow>
                 if isValueObject then check val h else (Inr (Bool isValueObject), h)
             | None \<Rightarrow> (Inr (Bool isValueObject), h))
       (''Expected a '' @ (case typeName options of None \<Rightarrow> ''ValueObject'' | Some n \<Rightarrow> n))"

text \<open>
  The argument of \<^verbatim>\<open>specificValueObjectSchema\<close>: a value that is falsy or whose
  \<^verbatim>\<open>typeof\<close> is not \<^verbatim>\<open>'object'\<close>, or an object, of which the function reads \<^verbatim>\<open>create\<close>
  (a function or not) and \<^verbatim>\<open>name\<close>.
\<close>

datatype factory_arg =
    NotAnObject jsval
  | FactoryObject "(jsval \<Rightarrow> jsval comp) option" "string option"

text \<open>The \<^verbatim>\<open>typeCheck\<close> closure: any exception inside the \<^verbatim>\<open>try\<close> block gives \<^verbatim>\<open>false\<close>.\<close>

definition recreate_check :: "rt \<Rightarrow> (jsval \<Rightarrow> jsval comp) \<Rightarrow> jsval \<Rightarrow> jsval comp" where
  "recreate_check r factory_create val h =
     (case seq (invoke r val ''valueOf'' []) (\<lambda>unwrapped.
           seq (factory_create unwrapped) (\<lambda>testRecreate.
           invoke r testRecreate ''equals'' [val])) h of
        (Inl e, h') \<Rightarrow> (Inr (Bool False), h')
      | (Inr res, h') \<Rightarrow> (Inr res, h'))"

definition specificValueObjectSchema :: "rt \<Rightarrow> factory_arg \<Rightarrow> exn + schema" where
  "specificValueObjectSchema r valueObjectFactory =
     (case valueObjectFactory of
        NotAnObject v \<Rightarrow> Inl (Error ''Invalid value object factory provided'')
      | FactoryObject None nm \<Rightarrow> Inl (Error ''Invalid value object factory provided'')
      | FactoryObject (Some factory_create) nm \<Rightarrow>
          Inr (valueObjectSchema
                 \<lparr>typeName = Some (case nm of
                                     None \<Rightarrow> ''ValueObject''
                                   | Some n \<Rightarrow> if n = [] then ''ValueObject'' else n),
                  typeCheck = Some (recreate_check r factory_create)\<rparr>))"

text \<open>
  The object \<^verbatim>\<open>{create, schema, extend}\<close> that \<^verbatim>\<open>valueObject\<close> returns: it has a
  \<^verbatim>\<open>create\<close> function and no \<^verbatim>\<open>name\<close> property.
\<close>

definition factory_object :: "factory \<Rightarrow> factory_arg" where
  "factory_object F = FactoryObject (Some (create F)) None"

section \<open>Entities\<close>

text \<open>
  The entity factory is declared in \<^verbatim>\<open>entities/Base.d.ts\<close>; its implementation is not
  among the sources. An entity is an object of the heap; the history of an entity is a
  log of \<open>(entity, timestamp, snapshot)\<close> kept beside the heap.
\<close>

record entity_factory =
  ef_name :: string
  ef_schema :: schema
  ef_identity :: string
  ef_historize :: bool

record world =
  w_heap :: heap
  w_history :: "(addr \<times> nat \<times> (string \<times> jsval) list) list"

text \<open>
  Modelled from the spec: \<^verbatim>\<open>update(entity, partialUpdates)\<close> of the entity factory,
  whose implementation is missing. In the spec's words: it merges the updates over the
  entity's current field values, re-validates the merged result against the schema
  (failure gives a \<open>ValidationError\<close> and leaves the entity unmodified), and if valid
  appends a snapshot of the pre-update field values with a timestamp to the history log
  (if historize), applies the new field values onto the existing entity object in place,
  and returns the same entity reference. An update that names the identity field is
  rejected.
\<close>

definition update :: "entity_factory \<Rightarrow> nat \<Rightarrow> jsval \<Rightarrow> jsval \<Rightarrow> world \<Rightarrow> (exn + jsval) \<times> world" where
  "update F now entity partialUpdates w =
     (case entity of
        Ref a \<Rightarrow>
          (case lookup (w_heap w) a of
             None \<Rightarrow> (Inl (TypeError ''not an entity''), w)
           | Some ob \<Rightarrow>
               if ef_identity F \<in> set (map fst (spread (w_heap w) partialUpdates))
               then (Inl (Error ''The identity field cannot be updated''), w)
               else
                 (case seq (new_obj (plain_obj (obj_lit
                              (filter (\<lambda>kv. typeof (w_heap w) (snd kv) \<noteq> ''function'')
                                 (props ob) @
                               spread (w_heap w) partialUpdates))))
                           (parse (ef_schema F)) (w_heap w) of
                    (Inl e, h1) \<Rightarrow>
                      (Inl (rethrow (ef_name F) partialUpdates e), w\<lparr>w_heap := h1\<rparr>)
                  | (Inr validated, h1) \<Rightarrow>
                      (Inr entity,
                       \<lparr>w_heap = set_props a
                            (obj_lit (spread h1 entity @ spread h1 validated)) h1,
                        w_history =
                          (if ef_historize F
                           then w_history w @
                                  [(a, now,
                                    filter (\<lambda>kv. typeof (w_heap w) (snd kv) \<noteq> ''function'')
                                      (props ob))]
                           else w_history w)\<rparr>)))
      | _ \<Rightarrow> (Inl (TypeError ''not an entity''), w))"

section \<open>Extending a factory\<close>

definition combinedMethodsFactory :: "factory \<Rightarrow> jsval comp \<Rightarrow> jsval comp" where
  "combinedMethodsFactory F extendedMethodsFactory h =
     (case vo_methodsFactory F h of
        (Inl e, h1) \<Rightarrow> (Inl e, h1)
      | (Inr parentMethods, h1) \<Rightarrow>
          (case extendedMethodsFactory h1 of
             (Inl e, h2) \<Rightarrow> (Inl e, h2)
           | (Inr extendedMethods, h2) \<Rightarrow>
               (case alloc (plain_obj (obj_lit (spread h2 parentMethods @
                                                 spread h2 extendedMethods))) h2 of
                  (a, h3) \<Rightarrow> (Inr (Ref a), h3))))"

definition extend :: "factory \<Rightarrow> extend_options \<Rightarrow> exn + factory" where
  "extend F opts =
     (if ext_name opts = [] then Inl (Error ''Extended value object name is required'')
      else case ext_methodsFactory opts of
        NotCallable v \<Rightarrow> Inl (Error ''Method factory is required for extension'')
      | MethodsFactory extendedMethodsFactory \<Rightarrow>
          (case (case ext_schema opts of
                   None \<Rightarrow> Inr (Some (vo_schema F))
                 | Some schemaTransformer \<Rightarrow> schemaTransformer (vo_schema F)) of
             Inl e \<Rightarrow> Inl e
           | Inr extendedSchema \<Rightarrow>
               valueObject
                 \<lparr>opt_name = ext_name opts,
                  opt_schema = extendedSchema,
                  opt_methodsFactory =
                    MethodsFactory (combinedMethodsFactory F extendedMethodsFactory),
                  opt_overrideIsPrimitive = vo_overrideIsPrimitive F\<rparr>))"

section \<open>Notions used in the statements\<close>

text \<open>
  \<open>extends h h'\<close>: every object of \<open>h\<close> is in \<open>h'\<close>, unchanged, at the same address.
  A computation is \<open>allocating\<close> when it only adds objects to the heap.
\<close>

definition extends :: "heap \<Rightarrow> heap \<Rightarrow> bool" where
  "extends h h' = (take (length h) h' = h)"

definition allocating :: "'a comp \<Rightarrow> bool" where
  "allocating m = (\<forall>h. extends h (snd (m h)))"

text \<open>The object that a write is aimed at.\<close>

fun target :: "heap_write \<Rightarrow> addr" where
  "target (Assign strict a k v) = a"
| "target (Delete strict a k) = a"
| "target (DefineProperty a k v) = a"

text \<open>\<open>wf_val h v\<close>: \<open>v\<close> is a primitive or the address of an object of \<open>h\<close>.\<close>

definition wf_val :: "heap \<Rightarrow> jsval \<Rightarrow> bool" where
  "wf_val h v = (case v of Ref a \<Rightarrow> a < length h | _ \<Rightarrow> True)"

text \<open>
  \<open>vo_at H isPrimitive validatedData name fs boundMethods n m\<close>: the heap \<open>H\<close> holds, from
  address \<open>n\<close>, the three standard closures and the prototype of one call of \<^verbatim>\<open>create\<close>,
  and from address \<open>m\<close> the three bound standard methods and the frozen object.
\<close>

definition vo_at ::
  "heap \<Rightarrow> bool \<Rightarrow> jsval \<Rightarrow> string \<Rightarrow> (string \<times> jsval) list \<Rightarrow> (string \<times> jsval) list \<Rightarrow>
   nat \<Rightarrow> nat \<Rightarrow> bool" where
  "vo_at H ip vd nm fs bm n m \<longleftrightarrow>
     n + 3 < m \<and> m + 3 < length H \<and>
     H ! n = fn_obj (ValueOfFn ip (if ip then vd else Undefined) vd) \<and>
     H ! (n + 1) = fn_obj (EqualsFn ip) \<and>
     H ! (n + 2) = fn_obj (ToStringFn ip (if ip then vd else Undefined) vd nm) \<and>
     H ! (n + 3) = plain_obj (obj_lit (fs @
        [(''valueOf'', Ref n), (''equals'', Ref (n + 1)), (''toString'', Ref (n + 2))])) \<and>
     H ! m = fn_obj (BoundFn (ValueOfFn ip (if ip then vd else Undefined) vd) (Ref (n + 3))) \<and>
     H ! (m + 1) = fn_obj (BoundFn (EqualsFn ip) (Ref (n + 3))) \<and>
     H ! (m + 2) =
       fn_obj (BoundFn (ToStringFn ip (if ip then vd else Undefined) vd nm) (Ref (n + 3))) \<and>
     H ! (m + 3) = \<lparr>props = obj_lit (fs @
        [(''valueOf'', Ref m), (''equals'', Ref (m + 1)), (''toString'', Ref (m + 2))] @ bm),
        frozen = True, callable = None, proto = BuiltinPrototype\<rparr> \<and>
     (\<forall>kv\<in>set bm. code_of H (snd kv) \<noteq> None)"

text \<open>The names of the three standard methods.\<close>

definition std_names :: "string set" where
  "std_names = {''valueOf'', ''equals'', ''toString''}"

text \<open>The own properties of \<open>v\<close> whose value is not a function.\<close>

definition data_of :: "heap \<Rightarrow> jsval \<Rightarrow> (string \<times> jsval) list" where
  "data_of h v = filter (\<lambda>kv. typeof h (snd kv) \<noteq> ''function'') (own_props h v)"

text \<open>
  The validated fields as the prototype keeps them as data: the fields of the object
  literal \<^verbatim>\<open>{...validatedData}\<close> that are not named like a standard method (the literal
  replaces those) and whose value is not a function.
\<close>

definition data_fields :: "heap \<Rightarrow> (string \<times> jsval) list \<Rightarrow> (string \<times> jsval) list" where
  "data_fields h fs =
     filter (\<lambda>kv. fst kv \<notin> std_names \<and> typeof h (snd kv) \<noteq> ''function'') (obj_lit fs)"

text \<open>
  Two lists of fields agree: the same names, and each value of the first strictly equal
  to the value of that name in the second.
\<close>

definition same_fields :: "(string \<times> jsval) list \<Rightarrow> (string \<times> jsval) list \<Rightarrow> bool" where
  "same_fields A B \<longleftrightarrow>
     set (map fst A) = set (map fst B) \<and>
     (\<forall>kv\<in>set A. case map_of B (fst kv) of Some w \<Rightarrow> strict_eq (snd kv) w | None \<Rightarrow> False)"

text \<open>
  \<open>avoids mf N\<close>: the methods object that \<open>mf\<close> returns never has a method with a name
  in \<open>N\<close>.
\<close>

definition avoids :: "jsval comp \<Rightarrow> string set \<Rightarrow> bool" where
  "avoids mf N \<longleftrightarrow> (\<forall>h ms h'. mf h = (Inr ms, h') \<longrightarrow> set (map fst (spread h' ms)) \<inter> N = {})"

text \<open>
  \<^verbatim>\<open>create(d1).equals(create(d2))\<close>. The expression reads \<^verbatim>\<open>equals\<close> from the first
  object before it creates the second; the first object is frozen, so the later read
  here finds the same function.
\<close>

definition equals_of_creates :: "rt \<Rightarrow> factory \<Rightarrow> jsval \<Rightarrow> jsval \<Rightarrow> jsval comp" where
  "equals_of_creates r F d1 d2 =
     seq (create F d1) (\<lambda>v1. seq (create F d2) (\<lambda>v2. invoke r v1 ''equals'' [v2]))"

text \<open>\<^verbatim>\<open>create(v.valueOf()).equals(v)\<close>.\<close>

definition valueOf_round_trip :: "rt \<Rightarrow> factory \<Rightarrow> jsval \<Rightarrow> jsval comp" where
  "valueOf_round_trip r F v =
     seq (invoke r v ''valueOf'' []) (\<lambda>unwrapped.
     seq (create F unwrapped) (\<lambda>v'. invoke r v' ''equals'' [v]))"

text \<open>
  The membership test in the spec's words: re-creating a value object from
  \<^verbatim>\<open>factory.create(v.valueOf())\<close> succeeds and yields something that \<^verbatim>\<open>.equals(v)\<close>.
\<close>

definition round_trip_equal :: "rt \<Rightarrow> factory \<Rightarrow> jsval \<Rightarrow> heap \<Rightarrow> bool" where
  "round_trip_equal r F v h =
     (case seq (invoke r v ''valueOf'' []) (\<lambda>unwrapped.
           seq (create F unwrapped) (\<lambda>recreated. invoke r recreated ''equals'' [v])) h of
        (Inr res, h') \<Rightarrow> truthy res
      | (Inl e, h') \<Rightarrow> False)"

section \<open>Example schemas, factories and heaps\<close>

text \<open>
  A schema in the manner of \<^verbatim>\<open>z.object({k1: z.any(), ...})\<close>: it accepts an object that
  has every listed key and returns a new object with exactly these keys, dropping the
  others; a missing key is one issue, in the order of the keys.
\<close>

definition object_schema :: "string list \<Rightarrow> schema" where
  "object_schema keys =
     \<lparr>ctor = ''ZodObject'',
      parse = (\<lambda>data h.
        if typeof h data \<noteq> ''object'' \<or> data = Null
        then (Inl (ZodError [Issue ''Expected object'' []]), h)
        else case filter (\<lambda>k. map_of (spread h data) k = None) keys of
          [] \<Rightarrow> new_obj (plain_obj (map (\<lambda>k. (k, get h data k)) keys)) h
        | missing \<Rightarrow> (Inl (ZodError (map (\<lambda>k. Issue ''Required'' [k]) missing)), h))\<rparr>"

text \<open>A \<^verbatim>\<open>methodsFactory\<close> that returns \<^verbatim>\<open>{}\<close>.\<close>

definition no_methods :: "jsval comp" where
  "no_methods = new_obj (plain_obj [])"

text \<open>
  The factories of the examples are written as the record that \<^verbatim>\<open>valueObject\<close> returns
  for them (lemma \<open>example_factories\<close>).
\<close>

definition Money :: factory where
  "Money = \<lparr>vo_name = ''Money'', vo_schema = object_schema [''amount'', ''currency''],
     vo_methodsFactory = no_methods, vo_overrideIsPrimitive = None, vo_isPrimitive = False\<rparr>"

text \<open>
  A schema in the manner of
  \<^verbatim>\<open>z.object({amount: z.number().positive(), currency: z.string().length(3)})\<close>: every
  field that fails contributes its issue, in the order of the fields.
\<close>

definition amount_issues :: "jsval \<Rightarrow> issue list" where
  "amount_issues v = (case v of
       Num (Fin q) \<Rightarrow> if 0 < q then [] else [Issue ''Number must be greater than 0'' [''amount'']]
     | Undefined \<Rightarrow> [Issue ''Required'' [''amount'']]
     | _ \<Rightarrow> [Issue ''Expected number'' [''amount'']])"

definition currency_issues :: "jsval \<Rightarrow> issue list" where
  "currency_issues v = (case v of
       Str s \<Rightarrow> if length s = 3 then []
                else [Issue ''String must contain exactly 3 character(s)'' [''currency'']]
     | Undefined \<Rightarrow> [Issue ''Required'' [''currency'']]
     | _ \<Rightarrow> [Issue ''Expected string'' [''currency'']])"

definition amount_currency_schema :: schema where
  "amount_currency_schema =
     \<lparr>ctor = ''ZodObject'',
      parse = (\<lambda>data h.
        if typeof h data \<noteq> ''object'' \<or> data = Null
        then (Inl (ZodError [Issue ''Expected object'' []]), h)
        else case amount_issues (get h data ''amount'') @
                  currency_issues (get h data ''currency'') of
          [] \<Rightarrow> new_obj (plain_obj [(''amount'', get h data ''amount''),
                                     (''currency'', get h data ''currency'')]) h
        | issues \<Rightarrow> (Inl (ZodError issues), h))\<rparr>"

definition CheckedMoney :: factory where
  "CheckedMoney = \<lparr>vo_name = ''Money'', vo_schema = amount_currency_schema,
     vo_methodsFactory = no_methods, vo_overrideIsPrimitive = None, vo_isPrimitive = False\<rparr>"

text \<open>The input \<^verbatim>\<open>{amount: -1, currency: 'US'}\<close>.\<close>

definition h_bad_money :: heap where
  "h_bad_money = [plain_obj [(''amount'', Num (Fin (- 1))), (''currency'', Str ''US'')]]"

text \<open>
  A \<^verbatim>\<open>methodsFactory\<close> with a memory, in the manner of
  \<^verbatim>\<open>let calls = 0; () => { if (calls++ > 0) throw new TypeError('used up'); return {}; }\<close>:
  the counter is the property \<^verbatim>\<open>calls\<close> of the object at address 0.
\<close>

definition moody_methods :: "jsval comp" where
  "moody_methods h =
     (case get h (Ref 0) ''calls'' of
        Num (Fin n) \<Rightarrow>
          if n > 0 then (Inl (TypeError ''used up''), set_props 0 [(''calls'', Num (Fin (n + 1)))] h)
          else new_obj (plain_obj []) (set_props 0 [(''calls'', Num (Fin (n + 1)))] h)
      | _ \<Rightarrow> (Inl (TypeError ''used up''), h))"

definition Moody :: factory where
  "Moody = \<lparr>vo_name = ''Moody'', vo_schema = object_schema [''amount''],
     vo_methodsFactory = moody_methods, vo_overrideIsPrimitive = None, vo_isPrimitive = False\<rparr>"

definition h_moody :: heap where
  "h_moody = [plain_obj [(''calls'', Num (Fin 0))], plain_obj [(''amount'', Num (Fin 1))]]"

text \<open>The same counter, and an input without the amount.\<close>

definition h_moody_rejected :: heap where
  "h_moody_rejected = [plain_obj [(''calls'', Num (Fin 0))], plain_obj []]"

text \<open>
  The primitive wrapper of numbers that \<^verbatim>\<open>primitives/IntegerNumber.js\<close> extends: a schema
  in the manner of \<^verbatim>\<open>z.number()\<close>, and \<^verbatim>\<open>.int()\<close> on it.
\<close>

definition number_schema :: schema where
  "number_schema =
     \<lparr>ctor = ''ZodNumber'',
      parse = (\<lambda>data h. case data of
                 Num (Fin q) \<Rightarrow> (Inr data, h)
               | _ \<Rightarrow> (Inl (ZodError [Issue ''Expected number'' []]), h))\<rparr>"

definition int_check :: "schema \<Rightarrow> schema" where
  "int_check base =
     base\<lparr>parse := (\<lambda>data. seq (parse base data) (\<lambda>v h.
        case v of
          Num (Fin q) \<Rightarrow>
            if of_int \<lfloor>q\<rfloor> = q then (Inr v, h)
            else (Inl (ZodError [Issue ''Expected integer, received float'' []]), h)
        | _ \<Rightarrow> (Inr v, h)))\<rparr>"

definition NumberVO :: factory where
  "NumberVO = \<lparr>vo_name = ''Number'', vo_schema = number_schema,
     vo_methodsFactory = no_methods, vo_overrideIsPrimitive = None, vo_isPrimitive = True\<rparr>"

text \<open>
  The call in \<^verbatim>\<open>primitives/IntegerNumber.js\<close>:
  \<^verbatim>\<open>Number.extend({name: 'IntegerNumber', schema: (baseSchema) => baseSchema.int(), methods: {}})\<close>.
  The options carry a \<^verbatim>\<open>methods\<close> object and no \<^verbatim>\<open>methodsFactory\<close>, so the
  destructured \<^verbatim>\<open>extendedMethodsFactory\<close> is \<^verbatim>\<open>undefined\<close>.
\<close>

definition IntegerNumber_options :: extend_options where
  "IntegerNumber_options =
     \<lparr>ext_name = ''IntegerNumber'',
      ext_schema = Some (\<lambda>baseSchema. Inr (Some (int_check baseSchema))),
      ext_methodsFactory = NotCallable Undefined\<rparr>"

text \<open>Heaps that hold the inputs of the examples.\<close>

definition h_money :: heap where
  "h_money = [plain_obj [(''amount'', Num (Fin 1)), (''currency'', Str ''USD'')]]"

text \<open>An entity with the identity field \<^verbatim>\<open>id\<close> and a balance that must not be negative.\<close>

definition account_schema :: schema where
  "account_schema =
     \<lparr>ctor = ''ZodObject'',
      parse = (\<lambda>data h.
        case (get h data ''id'', get h data ''balance'') of
          (Str i, Num (Fin q)) \<Rightarrow>
            if 0 \<le> q then new_obj (plain_obj [(''id'', Str i), (''balance'', Num (Fin q))]) h
            else (Inl (ZodError [Issue ''Number must be greater than or equal to 0''
                                   [''balance'']]), h)
        | _ \<Rightarrow> (Inl (ZodError [Issue ''Required'' []]), h))\<rparr>"

definition Account :: entity_factory where
  "Account = \<lparr>ef_name = ''Account'', ef_schema = account_schema, ef_identity = ''id'',
     ef_historize = True\<rparr>"

definition w_account :: world where
  "w_account =
     \<lparr>w_heap = [plain_obj [(''id'', Str ''a1''), (''balance'', Num (Fin 10))],
                plain_obj [(''balance'', Num (Fin (- 5)))]],
      w_history = []\<rparr>"

text \<open>A runtime without host functions; its text conversions know strings only.\<close>

definition no_host :: rt where
  "no_host =
     \<lparr>host = (\<lambda>n this args h. (Inl (TypeError ''not a function''), h)),
      to_String = (\<lambda>h v. case v of Str s \<Rightarrow> Inr s | _ \<Rightarrow> Inl (Error ''conversion not modelled'')),
      stringify = (\<lambda>h v. Inl (Error ''conversion not modelled''))\<rparr>"

definition h_two :: heap where
  "h_two = [plain_obj [(''amount'', Num (Fin 1)), (''currency'', Str ''USD'')],
            plain_obj [(''amount'', Num (Fin 2)), (''currency'', Str ''USD'')]]"

definition h_nan :: heap where
  "h_nan = [plain_obj [(''amount'', Num NaN), (''currency'', Str ''USD'')]]"

definition h_notes :: heap where
  "h_notes = [plain_obj [(''amount'', Num (Fin 1)), (''currency'', Str ''USD''), (''note'', Str ''a'')],
              plain_obj [(''amount'', Num (Fin 1)), (''currency'', Str ''USD''), (''note'', Str ''b'')]]"

text \<open>
  A runtime whose host functions all return \<^verbatim>\<open>false\<close>, and a heap with a \<open>Money\<close> and
  a plain object of the same fields whose own \<^verbatim>\<open>hasOwnProperty\<close> is such a function.
\<close>

definition denying_host :: rt where
  "denying_host = no_host\<lparr>host := (\<lambda>n this args h. (Inr (Bool False), h))\<rparr>"

definition h_denying :: heap where
  "h_denying = snd (create Money (Ref 0) h_money) @
     [fn_obj (HostFn 0),
      plain_obj [(''amount'', Num (Fin 1)), (''currency'', Str ''USD''),
                 (''hasOwnProperty'', Ref 11)]]"

text \<open>
  An object with the prototype \<^verbatim>\<open>null\<close>, in the manner of
  \<^verbatim>\<open>Object.assign(Object.create(null), {k1: v1, ...})\<close>; and a heap with a \<open>Money\<close> and
  such an object of the same fields.
\<close>

definition bare_obj :: "(string \<times> jsval) list \<Rightarrow> obj" where
  "bare_obj ps = \<lparr>props = ps, frozen = False, callable = None, proto = NullPrototype\<rparr>"

definition h_bare :: heap where
  "h_bare = snd (create Money (Ref 0) h_money) @
     [bare_obj [(''amount'', Num (Fin 1)), (''currency'', Str ''USD'')]]"

text \<open>
  The heap after \<^verbatim>\<open>v = Money.create(d)\<close> and the strict-mode assignment
  \<^verbatim>\<open>v.valueOf().amount = 2\<close>, which writes to the prototype (address 5).
\<close>

definition h_rewritten :: heap where
  "h_rewritten =
     snd (attempt (Assign True 5 ''amount'' (Num (Fin 2))) (snd (create Money (Ref 0) h_money)))"

text \<open>A factory like \<open>Money\<close> under another name.\<close>

definition Price :: factory where
  "Price = Money\<lparr>vo_name := ''Price''\<rparr>"

text \<open>
  A factory whose \<^verbatim>\<open>methodsFactory\<close> returns \<^verbatim>\<open>{currency() {...}}\<close>: a custom method
  named like a validated field.
\<close>

definition currency_method :: "jsval comp" where
  "currency_method = seq (new_obj (fn_obj (HostFn 0))) (\<lambda>f. new_obj (plain_obj [(''currency'', f)]))"

definition Labelled :: factory where
  "Labelled = Money\<lparr>vo_name := ''Labelled'', vo_methodsFactory := currency_method\<rparr>"

definition h_labelled :: heap where
  "h_labelled = snd (create Labelled (Ref 0) h_money) @ [plain_obj [(''amount'', Num (Fin 1))]]"

text \<open>
  Two primitive wrappers by \<^verbatim>\<open>overrideIsPrimitive: true\<close>: one on a schema in the manner
  of \<^verbatim>\<open>z.nan()\<close>, one on a schema in the manner of
  \<^verbatim>\<open>z.string().transform((s) => s.length)\<close>.
\<close>

definition nan_schema :: schema where
  "nan_schema =
     \<lparr>ctor = ''ZodNaN'',
      parse = (\<lambda>data h. case data of
                 Num NaN \<Rightarrow> (Inr data, h)
               | _ \<Rightarrow> (Inl (ZodError [Issue ''Expected nan'' []]), h))\<rparr>"

definition length_schema :: schema where
  "length_schema =
     \<lparr>ctor = ''ZodEffects'',
      parse = (\<lambda>data h. case data of
                 Str s \<Rightarrow> (Inr (Num (Fin (of_nat (length s)))), h)
               | _ \<Rightarrow> (Inl (ZodError [Issue ''Expected string'' []]), h))\<rparr>"

definition primitive_options :: "string \<Rightarrow> schema \<Rightarrow> vo_options" where
  "primitive_options name sc =
     \<lparr>opt_name = name, opt_schema = Some sc, opt_methodsFactory = MethodsFactory no_methods,
      opt_overrideIsPrimitive = Some True\<rparr>"

definition NotANumber :: factory where
  "NotANumber = \<lparr>vo_name = ''NotANumber'', vo_schema = nan_schema,
     vo_methodsFactory = no_methods, vo_overrideIsPrimitive = Some True, vo_isPrimitive = True\<rparr>"

definition TextLength :: factory where
  "TextLength = \<lparr>vo_name = ''TextLength'', vo_schema = length_schema,
     vo_methodsFactory = no_methods, vo_overrideIsPrimitive = Some True, vo_isPrimitive = True\<rparr>"

text \<open>
  A plain object with the fields of a \<open>Money\<close> and some function under \<^verbatim>\<open>equals\<close>; and a
  primitive wrapper of strings, on a schema in the manner of \<^verbatim>\<open>z.string()\<close>.
\<close>

definition h_duck :: heap where
  "h_duck = [plain_obj [(''amount'', Num (Fin 1)), (''currency'', Str ''USD''), (''equals'', Ref 1)],
             fn_obj (HostFn 0)]"

definition string_schema :: schema where
  "string_schema =
     \<lparr>ctor = ''ZodString'',
      parse = (\<lambda>data h. case data of
                 Str s \<Rightarrow> (Inr data, h)
               | _ \<Rightarrow> (Inl (ZodError [Issue ''Expected string'' []]), h))\<rparr>"

definition StringVO :: factory where
  "StringVO = \<lparr>vo_name = ''String'', vo_schema = string_schema,
     vo_methodsFactory = no_methods, vo_overrideIsPrimitive = None, vo_isPrimitive = True\<rparr>"

section \<open>Properties of \<open>create\<close>\<close>

lemma example_factories:
  "valueObject \<lparr>opt_name = ''Money'', opt_schema = Some (object_schema [''amount'', ''currency'']),
     opt_methodsFactory = MethodsFactory no_methods, opt_overrideIsPrimitive = None\<rparr> = Inr Money"
  "valueObject \<lparr>opt_name = ''Price'', opt_schema = Some (object_schema [''amount'', ''currency'']),
     opt_methodsFactory = MethodsFactory no_methods, opt_overrideIsPrimitive = None\<rparr> = Inr Price"
  "valueObject \<lparr>opt_name = ''Labelled'',
     opt_schema = Some (object_schema [''amount'', ''currency'']),
     opt_methodsFactory = MethodsFactory currency_method, opt_overrideIsPrimitive = None\<rparr> =
     Inr Labelled"
  "valueObject \<lparr>opt_name = ''Moody'', opt_schema = Some (object_schema [''amount'']),
     opt_methodsFactory = MethodsFactory moody_methods, opt_overrideIsPrimitive = None\<rparr> = Inr Moody"
  "valueObject \<lparr>opt_name = ''Money'', opt_schema = Some amount_currency_schema,
     opt_methodsFactory = MethodsFactory no_methods, opt_overrideIsPrimitive = None\<rparr> =
     Inr CheckedMoney"
  "valueObject \<lparr>opt_name = ''Number'', opt_schema = Some number_schema,
     opt_methodsFactory = MethodsFactory no_methods, opt_overrideIsPrimitive = None\<rparr> = Inr NumberVO"
  "valueObject \<lparr>opt_name = ''String'', opt_schema = Some string_schema,
     opt_methodsFactory = MethodsFactory no_methods, opt_overrideIsPrimitive = None\<rparr> = Inr StringVO"
  by (simp_all add: valueObject_def Money_def Price_def Labelled_def Moody_def NumberVO_def
      StringVO_def CheckedMoney_def object_schema_def number_schema_def string_schema_def
      amount_currency_schema_def)

lemma seq_Inl: "m h = (Inl e, h') \<Longrightarrow> seq m f h = (Inl e, h')"
  by (simp add: seq_def)

lemma seq_Inr: "m h = (Inr x, h') \<Longrightarrow> seq m f h = f x h'"
  by (simp add: seq_def)

lemma seq_cases:
  "seq m f h = (res, h') \<longleftrightarrow>
     (\<exists>e. m h = (Inl e, h') \<and> res = Inl e) \<or> (\<exists>x h1. m h = (Inr x, h1) \<and> f x h1 = (res, h'))"
  by (cases "m h"; cases "fst (m h)") (auto simp: seq_def)

lemma pair_fst_snd: "fst p = a \<Longrightarrow> p = (a, snd p)"
  by (cases p) simp

section \<open>Properties of heaps that only grow\<close>

lemma extends_refl: "extends h h"
  by (simp add: extends_def)

lemma extends_append: "extends h (h @ xs)"
  by (simp add: extends_def)

lemma extends_iff: "extends h h' \<longleftrightarrow> (\<exists>xs. h' = h @ xs)"
proof
  assume "extends h h'"
  then have "h' = h @ drop (length h) h'"
    by (metis append_take_drop_id extends_def)
  then show "\<exists>xs. h' = h @ xs" ..
qed (auto simp: extends_def)

lemma extends_trans: "extends h h1 \<Longrightarrow> extends h1 h2 \<Longrightarrow> extends h h2"
  by (auto simp: extends_iff)

lemma extends_nth: "extends h h' \<Longrightarrow> a < length h \<Longrightarrow> h' ! a = h ! a"
  by (auto simp: extends_iff nth_append)

lemma extends_length: "extends h h' \<Longrightarrow> length h \<le> length h'"
  by (auto simp: extends_iff)

lemma allocatingD: "allocating m \<Longrightarrow> m h = (res, h') \<Longrightarrow> extends h h'"
  by (auto simp: allocating_def dest: spec [of _ h])

lemma new_obj_extends: "new_obj ob h = (res, h') \<Longrightarrow> extends h h'"
  by (auto simp: new_obj_def alloc_def extends_append)

lemma seq_extends:
  assumes "seq m f h = (res, h')"
    and "\<And>r h1. m h = (r, h1) \<Longrightarrow> extends h h1"
    and "\<And>x h1 r h2. m h = (Inr x, h1) \<Longrightarrow> f x h1 = (r, h2) \<Longrightarrow> extends h1 h2"
  shows "extends h h'"
  using assms by (auto simp: seq_cases intro: extends_trans)

lemma bind_method_extends: "bind_method m b h = (res, h') \<Longrightarrow> extends h h'"
  by (auto simp: bind_method_def alloc_def extends_append extends_refl split: option.splits)

section \<open>Validation failures and the methods factory\<close>

lemma rethrow_not_ZodError: "rethrow name data e \<noteq> ZodError is"
  by (cases e) (simp_all add: rethrow_def)

lemma join_concat:
  "join sep xs = (case xs of [] \<Rightarrow> [] | x # ys \<Rightarrow> x @ concat (map (\<lambda>y. sep @ y) ys))"
  by (induction sep xs rule: join.induct) simp_all

text \<open>
  C3. When the schema's \<^verbatim>\<open>parse\<close> rejects the input with its validation error,
  \<^verbatim>\<open>create\<close> throws a \<open>ValidationError\<close> that carries the engine's error with all its
  issues, the factory's name and the input, and whose message is \<^verbatim>\<open>Invalid\<close>, the
  name, a colon and the messages of all the issues in their order, the first as it is
  and each later one after a comma and a space; and whatever happens, what \<^verbatim>\<open>create\<close>
  throws is never the engine's raw error.
\<close>

theorem create_wraps_validation_failure:
  "(parse (vo_schema F) d h = (Inl (ZodError issues), h') \<longrightarrow>
      create F d h =
        (Inl (ValidationError
               (''Invalid '' @ vo_name F @ '': '' @
                  (case issues of
                     [] \<Rightarrow> []
                   | i # rest \<Rightarrow> message i @ concat (map (\<lambda>j. '', '' @ message j) rest)))
               (ZodError issues) (vo_name F) d), h'))
   \<and> fst (create F d h) \<noteq> Inl (ZodError raw)"
proof
  have "join '', '' (map message issues) =
      (case issues of
         [] \<Rightarrow> []
       | i # rest \<Rightarrow> message i @ concat (map (\<lambda>j. '', '' @ message j) rest))"
    by (cases issues) (simp_all add: join_concat comp_def)
  then show "parse (vo_schema F) d h = (Inl (ZodError issues), h') \<longrightarrow>
      create F d h =
        (Inl (ValidationError
               (''Invalid '' @ vo_name F @ '': '' @
                  (case issues of
                     [] \<Rightarrow> []
                   | i # rest \<Rightarrow> message i @ concat (map (\<lambda>j. '', '' @ message j) rest)))
               (ZodError issues) (vo_name F) d), h')"
    by (simp add: create_def create_try_def seq_def rethrow_def)
  show "fst (create F d h) \<noteq> Inl (ZodError raw)"
    by (cases "create_try F d h"; cases "fst (create_try F d h)")
       (auto simp: create_def rethrow_not_ZodError)
qed

text \<open>
  The theorem at a \<open>Money\<close> with a negative amount and a currency of two letters: the
  schema reports two issues, and the message of the \<open>ValidationError\<close> has both messages,
  in the order of the issues.
\<close>

theorem create_wraps_validation_failure_witness:
  "parse (vo_schema CheckedMoney) (Ref 0) h_bad_money =
      (Inl (ZodError [Issue ''Number must be greater than 0'' [''amount''],
                      Issue ''String must contain exactly 3 character(s)'' [''currency'']]),
       h_bad_money)
   \<and> create CheckedMoney (Ref 0) h_bad_money =
      (Inl (ValidationError
              ''Invalid Money: Number must be greater than 0, String must contain exactly 3 character(s)''
              (ZodError [Issue ''Number must be greater than 0'' [''amount''],
                         Issue ''String must contain exactly 3 character(s)'' [''currency'']])
              ''Money'' (Ref 0)), h_bad_money)"
proof -
  have p: "parse (vo_schema CheckedMoney) (Ref 0) h_bad_money =
      (Inl (ZodError [Issue ''Number must be greater than 0'' [''amount''],
                      Issue ''String must contain exactly 3 character(s)'' [''currency'']]),
       h_bad_money)"
  proof -
    have "fst (parse (vo_schema CheckedMoney) (Ref 0) h_bad_money) =
        Inl (ZodError [Issue ''Number must be greater than 0'' [''amount''],
                       Issue ''String must contain exactly 3 character(s)'' [''currency'']])"
      by code_simp
    moreover have "snd (parse (vo_schema CheckedMoney) (Ref 0) h_bad_money) = h_bad_money"
      by code_simp
    ultimately show ?thesis by (simp add: prod_eq_iff)
  qed
  have n: "vo_name CheckedMoney = ''Money''"
    by (simp add: CheckedMoney_def)
  from create_wraps_validation_failure [of CheckedMoney "Ref 0" h_bad_money
      "[Issue ''Number must be greater than 0'' [''amount''],
        Issue ''String must contain exactly 3 character(s)'' [''currency'']]" h_bad_money] p
  show ?thesis unfolding n by simp
qed

lemma bind_all_extends: "bind_all es p acc h = (res, h') \<Longrightarrow> extends h h'"
proof (induction es arbitrary: acc h)
  case Nil
  then show ?case by (simp add: extends_refl)
next
  case (Cons e es)
  obtain k mf where e: "e = (k, mf)" by (cases e)
  obtain r1 h1 where b: "bind_method mf p h = (r1, h1)" by (cases "bind_method mf p h")
  then have e1: "extends h h1" by (rule bind_method_extends)
  show ?case
  proof (cases r1)
    case (Inl x)
    with Cons.prems b e e1 show ?thesis by simp
  next
    case (Inr v)
    with Cons.prems b e have "bind_all es p (put k v acc) h1 = (res, h')" by simp
    from Cons.IH [OF this] have "extends h1 h'" .
    with e1 show ?thesis by (rule extends_trans)
  qed
qed

lemma frozen_instance_extends: "frozen_instance vd p bm h = (res, h') \<Longrightarrow> extends h h'"
  unfolding frozen_instance_def
  by (elim seq_extends)
     (auto simp: pure_op_def extends_refl intro: bind_method_extends new_obj_extends)

text \<open>
  C9, as the code has it. \<^verbatim>\<open>create\<close> calls \<^verbatim>\<open>schema.parse\<close> first. When \<^verbatim>\<open>parse\<close>
  throws, \<^verbatim>\<open>create\<close> ends there: its outcome and its heap are those of \<^verbatim>\<open>parse\<close> (the
  exception as the \<^verbatim>\<open>catch\<close> block rethrows it), whatever the \<^verbatim>\<open>methodsFactory\<close> is,
  which is not called. When \<^verbatim>\<open>parse\<close> accepts the input, \<^verbatim>\<open>create\<close> runs the
  \<^verbatim>\<open>methodsFactory\<close> again, on the heap of that call, just after it has built the
  prototype: the heap that \<^verbatim>\<open>create\<close> leaves is the one the \<^verbatim>\<open>methodsFactory\<close> left,
  with more objects at most; and an exception of the \<^verbatim>\<open>methodsFactory\<close> that is not the
  validation engine's error leaves \<^verbatim>\<open>create\<close> as it is, unwrapped.
\<close>

theorem create_runs_methodsFactory_after_parse:
  "(parse (vo_schema F) d h = (Inl e, h') \<longrightarrow>
      (\<forall>mf. create (F\<lparr>vo_methodsFactory := mf\<rparr>) d h = (Inl (rethrow (vo_name F) d e), h')))
   \<and> (parse (vo_schema F) d h = (Inr validatedData, h1) \<and>
      vo_methodsFactory F (snd (make_prototype F validatedData h1)) = (res, h2) \<longrightarrow>
        extends h2 (snd (create F d h)) \<and>
        (\<forall>e. res = Inl e \<and> (\<forall>issues. e \<noteq> ZodError issues) \<longrightarrow> create F d h = (Inl e, h2)))"
proof (intro conjI impI allI)
  fix mf
  assume "parse (vo_schema F) d h = (Inl e, h')"
  then show "create (F\<lparr>vo_methodsFactory := mf\<rparr>) d h = (Inl (rethrow (vo_name F) d e), h')"
    by (simp add: create_def create_try_def seq_def)
next
  assume a: "parse (vo_schema F) d h = (Inr validatedData, h1) \<and>
      vo_methodsFactory F (snd (make_prototype F validatedData h1)) = (res, h2)"
  obtain p hp where mp: "make_prototype F validatedData h1 = (Inr p, hp)"
    by (simp add: make_prototype_def seq_def pure_op_def new_obj_def alloc_def Let_def)
  with a have mf: "vo_methodsFactory F hp = (res, h2)" by simp
  show "extends h2 (snd (create F d h))"
  proof (cases res)
    case (Inl x)
    with a mp mf have "create_try F d h = (Inl x, h2)"
      by (simp add: create_try_def seq_def)
    then show ?thesis by (simp add: create_def extends_refl)
  next
    case (Inr ms)
    show ?thesis
    proof (cases "entries h2 ms")
      case (Inl x)
      with a mp mf Inr have "create_try F d h = (Inl x, h2)"
        by (simp add: create_try_def seq_def pure_op_def)
      then show ?thesis by (simp add: create_def extends_refl)
    next
      case es: (Inr es)
      obtain rb h3 where ba: "bind_all es p [] h2 = (rb, h3)" by (cases "bind_all es p [] h2")
      from bind_all_extends [OF ba] have e23: "extends h2 h3" .
      show ?thesis
      proof (cases rb)
        case (Inl x)
        with a mp mf Inr es ba have "create_try F d h = (Inl x, h3)"
          by (simp add: create_try_def seq_def pure_op_def)
        with e23 show ?thesis by (simp add: create_def)
      next
        case bm: (Inr bm)
        obtain rf h4 where fi: "frozen_instance validatedData p bm h3 = (rf, h4)"
          by (cases "frozen_instance validatedData p bm h3")
        from frozen_instance_extends [OF fi] have e34: "extends h3 h4" .
        from a mp mf Inr es ba bm fi have "create_try F d h = (rf, h4)"
          by (simp add: create_try_def seq_def pure_op_def)
        then have "snd (create F d h) = h4"
          by (cases rf) (simp_all add: create_def)
        moreover from e23 e34 have "extends h2 h4" by (rule extends_trans)
        ultimately show ?thesis by simp
      qed
    qed
  qed
next
  fix x
  assume a: "parse (vo_schema F) d h = (Inr validatedData, h1) \<and>
      vo_methodsFactory F (snd (make_prototype F validatedData h1)) = (res, h2)"
    and x: "res = Inl x \<and> (\<forall>issues. x \<noteq> ZodError issues)"
  obtain p hp where mp: "make_prototype F validatedData h1 = (Inr p, hp)"
    by (simp add: make_prototype_def seq_def pure_op_def new_obj_def alloc_def Let_def)
  have "create_try F d h = (Inl x, h2)"
    using a x mp by (simp add: create_try_def seq_def)
  moreover have "rethrow (vo_name F) d x = x"
    using x by (cases x) (simp_all add: rethrow_def)
  ultimately show "create F d h = (Inl x, h2)" by (simp add: create_def)
qed

text \<open>
  The theorem at a factory whose \<^verbatim>\<open>methodsFactory\<close> counts its calls and throws from the
  second on. For an input without the amount, \<^verbatim>\<open>create\<close> throws the \<open>ValidationError\<close>
  and the heap, with the counter, is untouched. For an accepted input the first
  \<^verbatim>\<open>create\<close> returns an object and leaves the counter at 1; the second throws the
  \<^verbatim>\<open>TypeError\<close>, which is neither a \<open>ValidationError\<close> nor an \<^verbatim>\<open>Error\<close> of the
  configuration checks, and leaves the counter at 2.
\<close>

theorem create_runs_methodsFactory_after_parse_witness:
  "create Moody (Ref 1) h_moody_rejected =
     (Inl (ValidationError ''Invalid Moody: Required''
             (ZodError [Issue ''Required'' [''amount'']]) ''Moody'' (Ref 1)), h_moody_rejected) \<and>
   fst (create Moody (Ref 1) h_moody) = Inr (Ref 11) \<and>
   get (snd (create Moody (Ref 1) h_moody)) (Ref 0) ''calls'' = Num (Fin 1) \<and>
   fst (create Moody (Ref 1) (snd (create Moody (Ref 1) h_moody))) = Inl (TypeError ''used up'') \<and>
   get (snd (create Moody (Ref 1) (snd (create Moody (Ref 1) h_moody)))) (Ref 0) ''calls'' =
     Num (Fin 2)"
proof -
  define h where "h = snd (create Moody (Ref 1) h_moody)"
  define hp where "hp = snd (make_prototype Moody (Ref 12) (h @ [plain_obj [(''amount'', Num (Fin 1))]]))"
  define h2 where "h2 = snd (vo_methodsFactory Moody hp)"
  have rej: "parse (vo_schema Moody) (Ref 1) h_moody_rejected =
      (Inl (ZodError [Issue ''Required'' [''amount'']]), h_moody_rejected)"
    by (simp add: Moody_def object_schema_def h_moody_rejected_def typeof_def code_of_def
        lookup_def plain_obj_def spread_def)
  have same: "Moody\<lparr>vo_methodsFactory := moody_methods\<rparr> = Moody"
    by (simp add: Moody_def)
  have nm: "rethrow (vo_name Moody) (Ref 1) (ZodError [Issue ''Required'' [''amount'']]) =
      ValidationError ''Invalid Moody: Required''
        (ZodError [Issue ''Required'' [''amount'']]) ''Moody'' (Ref 1)"
    by (simp add: rethrow_def Moody_def)
  have first: "fst (create Moody (Ref 1) h_moody) = Inr (Ref 11)"
    by code_simp
  have count1: "get h (Ref 0) ''calls'' = Num (Fin 1)"
    unfolding h_def by code_simp
  have p: "parse (vo_schema Moody) (Ref 1) h = (Inr (Ref 12), h @ [plain_obj [(''amount'', Num (Fin 1))]])"
    unfolding h_def by code_simp
  have m: "fst (vo_methodsFactory Moody hp) = Inl (TypeError ''used up'')"
    unfolding hp_def h_def by code_simp
  then have m2: "vo_methodsFactory Moody (snd (make_prototype Moody (Ref 12)
      (h @ [plain_obj [(''amount'', Num (Fin 1))]]))) = (Inl (TypeError ''used up''), h2)"
    unfolding h2_def hp_def by (rule pair_fst_snd)
  have count2: "get h2 (Ref 0) ''calls'' = Num (Fin 2)"
    unfolding h2_def hp_def h_def by code_simp
  from create_runs_methodsFactory_after_parse [of Moody "Ref 1" h_moody_rejected
      "ZodError [Issue ''Required'' [''amount'']]" h_moody_rejected] rej
  have a: "create Moody (Ref 1) h_moody_rejected =
     (Inl (ValidationError ''Invalid Moody: Required''
             (ZodError [Issue ''Required'' [''amount'']]) ''Moody'' (Ref 1)), h_moody_rejected)"
    using same nm by (metis (no_types))
  from create_runs_methodsFactory_after_parse [of Moody "Ref 1" h _ _ "Ref 12"
      "h @ [plain_obj [(''amount'', Num (Fin 1))]]" "Inl (TypeError ''used up'')" h2] p m2
  have b: "create Moody (Ref 1) h = (Inl (TypeError ''used up''), h2)"
    by simp
  from a first count1 b count2 show ?thesis
    unfolding h_def by simp
qed

text \<open>
  C9 as stated fails: the \<^verbatim>\<open>methodsFactory\<close> is not called again on every call of
  \<^verbatim>\<open>create\<close>. For an input that \<^verbatim>\<open>parse\<close> rejects, \<^verbatim>\<open>create\<close> throws before it reaches
  the \<^verbatim>\<open>methodsFactory\<close>: the counter that every call of this \<^verbatim>\<open>methodsFactory\<close>
  increments (as the accepted input shows) is still 0 after the call.
\<close>

theorem create_skips_methodsFactory_counterexample:
  "get h_moody_rejected (Ref 0) ''calls'' = Num (Fin 0) \<and>
   fst (create Moody (Ref 1) h_moody_rejected) =
     Inl (ValidationError ''Invalid Moody: Required''
            (ZodError [Issue ''Required'' [''amount'']]) ''Moody'' (Ref 1)) \<and>
   get (snd (create Moody (Ref 1) h_moody_rejected)) (Ref 0) ''calls'' = Num (Fin 0) \<and>
   get h_moody (Ref 0) ''calls'' = Num (Fin 0) \<and>
   fst (create Moody (Ref 1) h_moody) = Inr (Ref 11) \<and>
   get (snd (create Moody (Ref 1) h_moody)) (Ref 0) ''calls'' = Num (Fin 1)"
proof -
  have a: "get h_moody_rejected (Ref 0) ''calls'' = Num (Fin 0)" by code_simp
  have b: "fst (create Moody (Ref 1) h_moody_rejected) =
     Inl (ValidationError ''Invalid Moody: Required''
            (ZodError [Issue ''Required'' [''amount'']]) ''Moody'' (Ref 1))" by code_simp
  have c: "get (snd (create Moody (Ref 1) h_moody_rejected)) (Ref 0) ''calls'' = Num (Fin 0)"
    by code_simp
  have d: "get h_moody (Ref 0) ''calls'' = Num (Fin 0)" by code_simp
  have e: "fst (create Moody (Ref 1) h_moody) = Inr (Ref 11)" by code_simp
  have f: "get (snd (create Moody (Ref 1) h_moody)) (Ref 0) ''calls'' = Num (Fin 1)"
    by code_simp
  from a b c d e f show ?thesis by blast
qed

section \<open>Properties of \<open>extend\<close>\<close>

text \<open>
  C6. \<^verbatim>\<open>extend\<close> with an empty name, or with a \<^verbatim>\<open>methodsFactory\<close> that is not a
  function (as when the options carry a \<^verbatim>\<open>methods\<close> object instead), throws an
  \<^verbatim>\<open>Error\<close> and returns no factory.
\<close>

theorem extend_configuration_errors:
  assumes "ext_name opts = [] \<or> ext_methodsFactory opts = NotCallable v"
  shows "extend F opts =
           Inl (Error (if ext_name opts = [] then ''Extended value object name is required''
                       else ''Method factory is required for extension''))"
  using assms by (auto simp: extend_def)

text \<open>The theorem at the call of \<^verbatim>\<open>primitives/IntegerNumber.js\<close>.\<close>

theorem extend_configuration_errors_witness:
  "ext_methodsFactory IntegerNumber_options = NotCallable Undefined \<and>
   extend NumberVO IntegerNumber_options = Inl (Error ''Method factory is required for extension'')"
proof -
  have c: "ext_name IntegerNumber_options = [] \<or> ext_methodsFactory IntegerNumber_options = NotCallable Undefined"
    by (simp add: IntegerNumber_options_def)
  from extend_configuration_errors [OF c, of NumberVO] show ?thesis
    by (simp add: IntegerNumber_options_def)
qed

section \<open>Immutability of the created object\<close>

lemma bind_method_Inr:
  "bind_method m b h = (Inr v, h') \<Longrightarrow>
     \<exists>f. code_of h m = Some f \<and> v = Ref (length h) \<and> h' = h @ [fn_obj (BoundFn f b)]"
  by (auto simp: bind_method_def alloc_def split: option.splits)

lemma frozen_instance_Inr:
  assumes "frozen_instance vd p bm h = (Inr v, h')"
  shows "\<exists>f1 f2 f3. v = Ref (length h + 3) \<and>
           h' = h @ [fn_obj (BoundFn f1 p), fn_obj (BoundFn f2 p), fn_obj (BoundFn f3 p),
                     \<lparr>props = obj_lit (spread h vd @
                        [(''valueOf'', Ref (length h)), (''equals'', Ref (length h + 1)),
                         (''toString'', Ref (length h + 2))] @ bm),
                      frozen = True, callable = None, proto = BuiltinPrototype\<rparr>] \<and>
           code_of h (get h p ''valueOf'') = Some f1 \<and>
           code_of (h @ [fn_obj (BoundFn f1 p)]) (get (h @ [fn_obj (BoundFn f1 p)]) p ''equals'') = Some f2 \<and>
           code_of (h @ [fn_obj (BoundFn f1 p), fn_obj (BoundFn f2 p)])
              (get (h @ [fn_obj (BoundFn f1 p), fn_obj (BoundFn f2 p)]) p ''toString'') = Some f3"
proof -
  from assms obtain v1 h1 v2 h2 v3 h3 where
    b1: "bind_method (get h p ''valueOf'') p h = (Inr v1, h1)" and
    b2: "bind_method (get h1 p ''equals'') p h1 = (Inr v2, h2)" and
    b3: "bind_method (get h2 p ''toString'') p h2 = (Inr v3, h3)" and
    n: "new_obj \<lparr>props = obj_lit (spread h vd @
                        [(''valueOf'', v1), (''equals'', v2), (''toString'', v3)] @ bm),
                      frozen = True, callable = None, proto = BuiltinPrototype\<rparr> h3 = (Inr v, h')"
    unfolding frozen_instance_def by (auto simp: seq_cases pure_op_def)
  from bind_method_Inr [OF b1] obtain f1 where
    f1: "code_of h (get h p ''valueOf'') = Some f1" "v1 = Ref (length h)" "h1 = h @ [fn_obj (BoundFn f1 p)]"
    by blast
  from bind_method_Inr [OF b2] obtain f2 where
    f2: "code_of h1 (get h1 p ''equals'') = Some f2" "v2 = Ref (length h1)" "h2 = h1 @ [fn_obj (BoundFn f2 p)]"
    by blast
  from bind_method_Inr [OF b3] obtain f3 where
    f3: "code_of h2 (get h2 p ''toString'') = Some f3" "v3 = Ref (length h2)" "h3 = h2 @ [fn_obj (BoundFn f3 p)]"
    by blast
  from n have "v = Ref (length h3)" "h' = h3 @ [\<lparr>props = obj_lit (spread h vd @
                        [(''valueOf'', v1), (''equals'', v2), (''toString'', v3)] @ bm),
                      frozen = True, callable = None, proto = BuiltinPrototype\<rparr>]"
    by (auto simp: new_obj_def alloc_def)
  with f1 f2 f3 show ?thesis by auto
qed

lemma create_try_Inr:
  assumes "create_try F d h = (Inr v, h')"
  shows "\<exists>vd h1 p h2 ms h3 es bm h4.
           parse (vo_schema F) d h = (Inr vd, h1) \<and>
           make_prototype F vd h1 = (Inr p, h2) \<and>
           vo_methodsFactory F h2 = (Inr ms, h3) \<and>
           entries h3 ms = Inr es \<and>
           bind_all es p [] h3 = (Inr bm, h4) \<and>
           frozen_instance vd p bm h4 = (Inr v, h')"
  using assms unfolding create_try_def
  by (auto simp: seq_cases pure_op_def)

lemma create_Inr: "create F d h = (Inr v, h') \<longleftrightarrow> create_try F d h = (Inr v, h')"
  by (cases "create_try F d h"; cases "fst (create_try F d h)") (auto simp: create_def)

lemma created_frozen:
  assumes "create F d h = (Inr v, h')"
  shows "\<exists>a. v = Ref a \<and> a < length h' \<and> frozen (h' ! a)"
proof -
  from assms have "create_try F d h = (Inr v, h')" by (simp add: create_Inr)
  from create_try_Inr [OF this] obtain vd p bm h4 where
    "frozen_instance vd p bm h4 = (Inr v, h')" by blast
  from frozen_instance_Inr [OF this] show ?thesis
    by (auto simp: nth_append)
qed

lemma attempt_length: "length (snd (attempt w h)) = length h"
  by (cases w) (auto simp: set_props_def split: option.splits)

lemma attempt_frozen_nth:
  assumes "a < length h" "frozen (h ! a)"
  shows "snd (attempt w h) ! a = h ! a"
proof (cases "target w = a")
  case True
  with assms show ?thesis by (cases w) (auto simp: lookup_def)
next
  case False
  then show ?thesis
    by (cases w) (auto simp: lookup_def set_props_def split: option.splits)
qed

lemma attempt_frozen_target:
  assumes "a < length h" "frozen (h ! a)" "target w = a"
  shows "snd (attempt w h) = h"
  using assms by (cases w) (auto simp: lookup_def)

lemma attempts_frozen_nth:
  "a < length h \<Longrightarrow> frozen (h ! a) \<Longrightarrow> attempts ws h ! a = h ! a"
proof (induction ws arbitrary: h)
  case Nil
  then show ?case by simp
next
  case (Cons w ws)
  have "attempts ws (snd (attempt w h)) ! a = snd (attempt w h) ! a"
    using Cons.prems by (intro Cons.IH) (simp_all add: attempt_length attempt_frozen_nth)
  then show ?case using Cons.prems by (simp add: attempt_frozen_nth)
qed

text \<open>
  C2. The object that \<^verbatim>\<open>create\<close> returns is frozen: a write aimed at it leaves the
  heap as it was (it is ignored, or rejected with a \<^verbatim>\<open>TypeError\<close>), and after any
  sequence of writes anywhere in the heap the object is what it was at creation.
\<close>

theorem created_object_immutable:
  assumes "create F d h = (Inr v, h')"
  shows "\<exists>a. v = Ref a \<and> a < length h' \<and> frozen (h' ! a) \<and>
             (\<forall>w. target w = a \<longrightarrow> snd (attempt w h') = h') \<and>
             (\<forall>ws. attempts ws h' ! a = h' ! a)"
proof -
  from created_frozen [OF assms] obtain a where
    a: "v = Ref a" "a < length h'" "frozen (h' ! a)" by blast
  then show ?thesis
    using attempt_frozen_target attempts_frozen_nth by blast
qed

lemma money_created: "fst (create Money (Ref 0) h_money) = Inr (Ref 10)"
  by code_simp

text \<open>
  The theorem at a \<open>Money\<close>: a strict-mode assignment to it, and a sequence of writes to
  it and to the input object.
\<close>

theorem created_object_immutable_witness:
  "fst (create Money (Ref 0) h_money) = Inr (Ref 10) \<and>
   frozen (snd (create Money (Ref 0) h_money) ! 10) \<and>
   snd (attempt (Assign True 10 ''amount'' (Num (Fin 2))) (snd (create Money (Ref 0) h_money)))
     = snd (create Money (Ref 0) h_money) \<and>
   attempts [Assign False 10 ''amount'' (Num (Fin 2)), Delete True 10 ''currency'',
             Assign True 0 ''amount'' (Num (Fin 2))] (snd (create Money (Ref 0) h_money)) ! 10
     = snd (create Money (Ref 0) h_money) ! 10"
proof -
  have c: "create Money (Ref 0) h_money = (Inr (Ref 10), snd (create Money (Ref 0) h_money))"
    using money_created by (simp add: prod_eq_iff)
  from created_object_immutable [OF c] obtain a where
    a: "Ref 10 = Ref a"
       "frozen (snd (create Money (Ref 0) h_money) ! a)"
       "\<forall>w. target w = a \<longrightarrow>
            snd (attempt w (snd (create Money (Ref 0) h_money))) = snd (create Money (Ref 0) h_money)"
       "\<forall>ws. attempts ws (snd (create Money (Ref 0) h_money)) ! a =
            snd (create Money (Ref 0) h_money) ! a"
    by blast
  from a(1) have a10: "a = 10" by simp
  have "target (Assign True 10 ''amount'' (Num (Fin 2))) = a"
    by (simp add: a10)
  with a(3) have "snd (attempt (Assign True 10 ''amount'' (Num (Fin 2)))
      (snd (create Money (Ref 0) h_money))) = snd (create Money (Ref 0) h_money)"
    by blast
  with a(2,4) money_created show ?thesis
    unfolding a10 by blast
qed

section \<open>Properties of the entity's \<open>update\<close>\<close>

lemma account_schema_allocating: "allocating (parse account_schema d)"
  by (auto simp: allocating_def account_schema_def extends_refl new_obj_def alloc_def
      extends_append split: jsval.splits jsnum.splits)

text \<open>
  C8. When \<^verbatim>\<open>update(e, patch)\<close> fails, the entity object is what it was before the
  call and nothing is added to the history; the schema's \<^verbatim>\<open>parse\<close> is taken to only
  allocate.
\<close>

theorem update_failure_leaves_entity:
  assumes "\<forall>d. allocating (parse (ef_schema F) d)"
    and "update F now (Ref a) partialUpdates w = (Inl err, w')"
  shows "lookup (w_heap w') a = lookup (w_heap w) a \<and> w_history w' = w_history w"
proof (cases "lookup (w_heap w) a")
  case None
  with assms(2) show ?thesis by (simp add: update_def)
next
  case (Some ob)
  show ?thesis
  proof (cases "ef_identity F \<in> set (map fst (spread (w_heap w) partialUpdates))")
    case True
    with Some assms(2) show ?thesis by (simp add: update_def)
  next
    case False
    define m where "m = seq (new_obj (plain_obj (obj_lit
        (filter (\<lambda>kv. typeof (w_heap w) (snd kv) \<noteq> ''function'') (props ob) @
         spread (w_heap w) partialUpdates)))) (parse (ef_schema F))"
    obtain r h1 where r: "m (w_heap w) = (r, h1)" by (cases "m (w_heap w)")
    have ext: "extends (w_heap w) h1"
      using r assms(1) unfolding m_def
      by (auto elim!: seq_extends intro: new_obj_extends allocatingD)
    from assms(2) Some False r have w': "w' = w\<lparr>w_heap := h1\<rparr>"
      by (cases r) (auto simp: update_def m_def)
    from Some have "a < length (w_heap w)"
      by (auto simp: lookup_def split: if_splits)
    moreover have "length (w_heap w) \<le> length h1"
      by (rule extends_length [OF ext])
    ultimately have "lookup h1 a = lookup (w_heap w) a"
      using ext by (simp add: lookup_def extends_nth)
    with w' show ?thesis by simp
  qed
qed

text \<open>The theorem at an account and an update that makes its balance negative.\<close>

theorem update_failure_leaves_entity_witness:
  "(\<forall>d. allocating (parse (ef_schema Account) d)) \<and>
   fst (update Account 7 (Ref 0) (Ref 1) w_account) =
     Inl (ValidationError ''Invalid Account: Number must be greater than or equal to 0''
            (ZodError [Issue ''Number must be greater than or equal to 0'' [''balance'']])
            ''Account'' (Ref 1)) \<and>
   lookup (w_heap (snd (update Account 7 (Ref 0) (Ref 1) w_account))) 0 =
     Some (plain_obj [(''id'', Str ''a1''), (''balance'', Num (Fin 10))]) \<and>
   w_history (snd (update Account 7 (Ref 0) (Ref 1) w_account)) = []"
proof -
  have f: "\<forall>d. allocating (parse (ef_schema Account) d)"
    by (simp add: Account_def account_schema_allocating)
  have e: "fst (update Account 7 (Ref 0) (Ref 1) w_account) =
     Inl (ValidationError ''Invalid Account: Number must be greater than or equal to 0''
            (ZodError [Issue ''Number must be greater than or equal to 0'' [''balance'']])
            ''Account'' (Ref 1))"
    by code_simp
  then have u: "update Account 7 (Ref 0) (Ref 1) w_account =
     (Inl (ValidationError ''Invalid Account: Number must be greater than or equal to 0''
            (ZodError [Issue ''Number must be greater than or equal to 0'' [''balance'']])
            ''Account'' (Ref 1)), snd (update Account 7 (Ref 0) (Ref 1) w_account))"
    by (simp add: prod_eq_iff)
  have l: "lookup (w_heap w_account) 0 = Some (plain_obj [(''id'', Str ''a1''), (''balance'', Num (Fin 10))])"
    by (simp add: w_account_def lookup_def)
  have hist: "w_history w_account = []"
    by (simp add: w_account_def)
  from update_failure_leaves_entity [OF f u] f e l hist show ?thesis by simp
qed

section \<open>Values of a growing heap\<close>

lemma lookup_extends: "extends h h' \<Longrightarrow> a < length h \<Longrightarrow> lookup h' a = lookup h a"
  using extends_length [of h h'] by (simp add: lookup_def extends_nth)

lemma spread_extends: "extends h h' \<Longrightarrow> wf_val h v \<Longrightarrow> spread h' v = spread h v"
  by (cases v) (simp_all add: spread_def wf_val_def lookup_extends)

lemma own_props_extends: "extends h h' \<Longrightarrow> wf_val h v \<Longrightarrow> own_props h' v = own_props h v"
  by (cases v) (simp_all add: own_props_def spread_extends)

lemma get_extends: "extends h h' \<Longrightarrow> wf_val h v \<Longrightarrow> get h' v k = get h v k"
  by (simp add: get_def own_props_extends)

lemma own_method_extends: "extends h h' \<Longrightarrow> wf_val h v \<Longrightarrow> own_method h' v k = own_method h v k"
  by (cases v) (simp_all add: own_method_def wf_val_def lookup_extends)

lemma code_of_extends: "extends h h' \<Longrightarrow> wf_val h v \<Longrightarrow> code_of h' v = code_of h v"
  by (cases v) (simp_all add: code_of_def wf_val_def lookup_extends)

lemma typeof_extends: "extends h h' \<Longrightarrow> wf_val h v \<Longrightarrow> typeof h' v = typeof h v"
  using code_of_extends [of h h' v] by (cases v) (simp_all add: typeof_def)

lemma wf_val_extends: "extends h h' \<Longrightarrow> wf_val h v \<Longrightarrow> wf_val h' v"
  using extends_length [of h h'] by (cases v) (simp_all add: wf_val_def)

lemma code_of_Some_wf: "code_of h v = Some f \<Longrightarrow> wf_val h v"
  by (cases v) (auto simp: code_of_def wf_val_def lookup_def split: if_splits)

subsection \<open>Object literals\<close>

lemma map_of_put: "map_of (put k v ps) = (map_of ps)(k \<mapsto> v)"
  by (induction k v ps rule: put.induct) (auto simp: fun_eq_iff)

lemma keys_put: "set (map fst (put k v ps)) = insert k (set (map fst ps))"
  by (induction k v ps rule: put.induct) (auto simp del: set_map)

lemma distinct_put: "distinct (map fst ps) \<Longrightarrow> distinct (map fst (put k v ps))"
  by (induction k v ps rule: put.induct) (auto simp: keys_put simp del: set_map)

lemma set_put: "set (put k v ps) \<subseteq> insert (k, v) (set ps)"
  by (induction k v ps rule: put.induct) auto

lemma foldl_put_map_of:
  "map_of (foldl (\<lambda>ps (k, v). put k v ps) acc xs) = map_of (rev xs @ acc)"
proof (induction xs arbitrary: acc)
  case Nil
  then show ?case by simp
next
  case (Cons x xs)
  obtain k v where x: "x = (k, v)" by (cases x)
  show ?case
    by (simp add: x Cons.IH map_of_put fun_eq_iff map_add_def split: option.splits)
qed

lemma foldl_put_keys:
  "set (map fst (foldl (\<lambda>ps (k, v). put k v ps) acc xs)) = set (map fst acc) \<union> set (map fst xs)"
proof (induction xs arbitrary: acc)
  case Nil
  then show ?case by simp
next
  case (Cons x xs)
  obtain k v where x: "x = (k, v)" by (cases x)
  show ?case using Cons.IH [of "put k v acc"]
    by (auto simp: x keys_put simp del: set_map)
qed

lemma foldl_put_distinct:
  "distinct (map fst acc) \<Longrightarrow> distinct (map fst (foldl (\<lambda>ps (k, v). put k v ps) acc xs))"
proof (induction xs arbitrary: acc)
  case Nil
  then show ?case by simp
next
  case (Cons x xs)
  obtain k v where x: "x = (k, v)" by (cases x)
  show ?case using Cons.IH [of "put k v acc"] Cons.prems
    by (simp add: x distinct_put)
qed

lemma map_of_obj_lit: "map_of (obj_lit xs) = map_of (rev xs)"
  by (simp add: obj_lit_def foldl_put_map_of)

lemma keys_obj_lit: "set (map fst (obj_lit xs)) = set (map fst xs)"
  by (simp add: obj_lit_def foldl_put_keys del: set_map)

lemma distinct_obj_lit: "distinct (map fst (obj_lit xs))"
  by (simp add: obj_lit_def foldl_put_distinct)

subsection \<open>The shape of a created value object\<close>

lemma code_of_extends_Some:
  "extends h h' \<Longrightarrow> code_of h v \<noteq> None \<Longrightarrow> code_of h' v = code_of h v"
  using code_of_Some_wf code_of_extends by blast

lemma vo_at_extends:
  assumes "vo_at H ip vd nm fs bm n m" and "extends H H'"
  shows "vo_at H' ip vd nm fs bm n m"
proof -
  have len: "length H \<le> length H'" using assms(2) by (rule extends_length)
  have nth: "\<And>a. a < length H \<Longrightarrow> H' ! a = H ! a"
    using assms(2) by (simp add: extends_nth)
  have "\<forall>kv\<in>set bm. code_of H' (snd kv) \<noteq> None"
    using assms by (auto simp: vo_at_def code_of_extends_Some)
  then show ?thesis
    using assms(1) len by (simp add: vo_at_def nth)
qed

lemma make_prototype_eq:
  "make_prototype F vd h =
     (Inr (Ref (length h + 3)),
      h @ [fn_obj (ValueOfFn (vo_isPrimitive F) (if vo_isPrimitive F then vd else Undefined) vd),
           fn_obj (EqualsFn (vo_isPrimitive F)),
           fn_obj (ToStringFn (vo_isPrimitive F) (if vo_isPrimitive F then vd else Undefined) vd
             (vo_name F)),
           plain_obj (obj_lit (spread h vd @
             [(''valueOf'', Ref (length h)), (''equals'', Ref (length h + 1)),
              (''toString'', Ref (length h + 2))]))])"
  by (simp add: make_prototype_def seq_def pure_op_def new_obj_def alloc_def Let_def)

lemma fn_obj_sel [simp]:
  "callable (fn_obj f) = Some f" "props (fn_obj f) = []" "frozen (fn_obj f) = False"
  "proto (fn_obj f) = BuiltinPrototype"
  by (simp_all add: fn_obj_def)

lemma plain_obj_sel [simp]:
  "props (plain_obj ps) = ps" "callable (plain_obj ps) = None" "frozen (plain_obj ps) = False"
  "proto (plain_obj ps) = BuiltinPrototype"
  by (simp_all add: plain_obj_def)

lemma code_of_last: "code_of (h @ [fn_obj f]) (Ref (length h)) = Some f"
  by (simp add: code_of_def lookup_def)

lemma bind_all_Inr:
  assumes "bind_all es p acc h = (Inr bm, h')"
    and "\<forall>kv\<in>set acc. code_of h (snd kv) \<noteq> None"
  shows "extends h h' \<and> set (map fst bm) = set (map fst acc) \<union> set (map fst es) \<and>
         (\<forall>kv\<in>set bm. code_of h' (snd kv) \<noteq> None)"
  using assms
proof (induction es arbitrary: acc h)
  case Nil
  then show ?case by (simp add: extends_refl)
next
  case (Cons e es)
  obtain k mf where e: "e = (k, mf)" by (cases e)
  from Cons.prems(1) obtain b h1 where
    b: "bind_method mf p h = (Inr b, h1)" and
    rest: "bind_all es p (put k b acc) h1 = (Inr bm, h')"
    by (auto simp: e split: prod.splits sum.splits)
  from bind_method_Inr [OF b] obtain f where
    f: "b = Ref (length h)" "h1 = h @ [fn_obj (BoundFn f p)]" by blast
  have ext1: "extends h h1" using b by (rule bind_method_extends)
  have acc': "\<forall>kv\<in>set (put k b acc). code_of h1 (snd kv) \<noteq> None"
  proof
    fix kv assume "kv \<in> set (put k b acc)"
    then have "kv = (k, b) \<or> kv \<in> set acc" using set_put [of k b acc] by auto
    then show "code_of h1 (snd kv) \<noteq> None"
    proof
      assume "kv = (k, b)"
      then show ?thesis by (simp add: f code_of_last)
    next
      assume "kv \<in> set acc"
      then show ?thesis using Cons.prems(2) ext1 by (simp add: code_of_extends_Some)
    qed
  qed
  from Cons.IH [OF rest acc'] ext1 show ?case
    by (auto simp: e keys_put intro: extends_trans simp del: set_map)
qed

lemma get_Ref:
  "a < length h \<Longrightarrow>
     get h (Ref a) k = (case map_of (props (h ! a)) k of Some x \<Rightarrow> x | None \<Rightarrow> Undefined)"
  by (simp add: get_def own_props_def spread_def lookup_def)

lemma create_shape:
  assumes c: "create F d h = (Inr v, h')"
    and p: "parse (vo_schema F) d h = (Inr vd, hp)"
    and wf: "wf_val hp vd"
    and al: "allocating (vo_methodsFactory F)"
  shows "\<exists>bm m h2 ms h3.
           v = Ref (m + 3) \<and>
           vo_at h' (vo_isPrimitive F) vd (vo_name F) (spread hp vd) bm (length hp) m \<and>
           extends hp h' \<and>
           vo_methodsFactory F h2 = (Inr ms, h3) \<and>
           set (map fst bm) = set (map fst (spread h3 ms))"
proof -
  let ?ip = "vo_isPrimitive F"
  let ?pv = "if ?ip then vd else Undefined"
  let ?n = "length hp"
  let ?proto = "plain_obj (obj_lit (spread hp vd @
             [(''valueOf'', Ref ?n), (''equals'', Ref (?n + 1)), (''toString'', Ref (?n + 2))]))"
  let ?h2 = "hp @ [fn_obj (ValueOfFn ?ip ?pv vd), fn_obj (EqualsFn ?ip),
                   fn_obj (ToStringFn ?ip ?pv vd (vo_name F)), ?proto]"
  from c have "create_try F d h = (Inr v, h')" by (simp add: create_Inr)
  from create_try_Inr [OF this] p make_prototype_eq [of F vd hp]
  obtain ms h3 es bm h4 where
    mf: "vo_methodsFactory F ?h2 = (Inr ms, h3)" and
    es: "entries h3 ms = Inr es" and
    ba: "bind_all es (Ref (?n + 3)) [] h3 = (Inr bm, h4)" and
    fi: "frozen_instance vd (Ref (?n + 3)) bm h4 = (Inr v, h')"
    by auto
  have e23: "extends ?h2 h3" using al mf by (rule allocatingD)
  from es have es': "es = spread h3 ms" by (auto simp: entries_def split: if_splits)
  from bind_all_Inr [OF ba] have
    e34: "extends h3 h4" and
    keys: "set (map fst bm) = set (map fst es)" and
    fns: "\<forall>kv\<in>set bm. code_of h4 (snd kv) \<noteq> None"
    by auto
  have e24: "extends ?h2 h4" using e23 e34 by (rule extends_trans)
  have ep2: "extends hp ?h2" by (rule extends_append)
  from frozen_instance_Inr [OF fi] obtain f1 f2 f3 where
    v: "v = Ref (length h4 + 3)" and
    h': "h' = h4 @ [fn_obj (BoundFn f1 (Ref (?n + 3))), fn_obj (BoundFn f2 (Ref (?n + 3))),
                    fn_obj (BoundFn f3 (Ref (?n + 3))),
                    \<lparr>props = obj_lit (spread h4 vd @
                        [(''valueOf'', Ref (length h4)), (''equals'', Ref (length h4 + 1)),
                         (''toString'', Ref (length h4 + 2))] @ bm),
                      frozen = True, callable = None, proto = BuiltinPrototype\<rparr>]" and
    f1: "code_of h4 (get h4 (Ref (?n + 3)) ''valueOf'') = Some f1" and
    f2: "code_of (h4 @ [fn_obj (BoundFn f1 (Ref (?n + 3)))])
           (get (h4 @ [fn_obj (BoundFn f1 (Ref (?n + 3)))]) (Ref (?n + 3)) ''equals'') = Some f2" and
    f3: "code_of (h4 @ [fn_obj (BoundFn f1 (Ref (?n + 3))), fn_obj (BoundFn f2 (Ref (?n + 3)))])
           (get (h4 @ [fn_obj (BoundFn f1 (Ref (?n + 3))), fn_obj (BoundFn f2 (Ref (?n + 3)))])
              (Ref (?n + 3)) ''toString'') = Some f3"
    by blast
  have e4': "extends h4 h'" by (simp add: h' extends_append)
  have e2': "extends ?h2 h'" using e24 e4' by (rule extends_trans)
  have len2: "length ?h2 = ?n + 4" by simp
  have nth2: "\<And>H a. extends ?h2 H \<Longrightarrow> a < ?n + 4 \<Longrightarrow> H ! a = ?h2 ! a"
    by (rule extends_nth) simp_all
  have len24: "?n + 4 \<le> length h4" using extends_length [OF e24] by simp
  have g: "\<And>H k. extends ?h2 H \<Longrightarrow> get H (Ref (?n + 3)) k =
      (case map_of (props ?proto) k of Some x \<Rightarrow> x | None \<Rightarrow> Undefined)"
  proof -
    fix H k assume e: "extends ?h2 H"
    have "?n + 3 < length H" using extends_length [OF e] by simp
    moreover have "H ! (?n + 3) = ?proto" using nth2 [OF e, of "?n + 3"] by (simp add: nth_append)
    ultimately show "get H (Ref (?n + 3)) k =
      (case map_of (props ?proto) k of Some x \<Rightarrow> x | None \<Rightarrow> Undefined)"
      by (simp add: get_Ref)
  qed
  have c: "\<And>H a. extends ?h2 H \<Longrightarrow> a < ?n + 4 \<Longrightarrow> code_of H (Ref a) = callable (?h2 ! a)"
  proof -
    fix H a assume e: "extends ?h2 H" and a: "a < ?n + 4"
    have "a < length H" using extends_length [OF e] a by simp
    then show "code_of H (Ref a) = callable (?h2 ! a)"
      using nth2 [OF e a] by (simp add: code_of_def lookup_def)
  qed
  have f1': "f1 = ValueOfFn ?ip ?pv vd"
    using f1 c [OF e24, of ?n]
    by (simp add: g [OF e24] map_of_obj_lit nth_append)
  have e2a: "extends ?h2 (h4 @ [fn_obj (BoundFn f1 (Ref (?n + 3)))])"
    using e24 extends_append by (rule extends_trans)
  have f2': "f2 = EqualsFn ?ip"
    using f2 c [OF e2a, of "?n + 1"]
    by (simp add: g [OF e2a] map_of_obj_lit nth_append)
  have e2b: "extends ?h2 (h4 @ [fn_obj (BoundFn f1 (Ref (?n + 3))), fn_obj (BoundFn f2 (Ref (?n + 3)))])"
    using e24 extends_append by (rule extends_trans)
  have f3': "f3 = ToStringFn ?ip ?pv vd (vo_name F)"
    using f3 c [OF e2b, of "?n + 2"]
    by (simp add: g [OF e2b] map_of_obj_lit nth_append)
  have sp: "spread h4 vd = spread hp vd"
    using extends_trans [OF ep2 e24] wf by (rule spread_extends)
  have fns': "\<forall>kv\<in>set bm. code_of h' (snd kv) \<noteq> None"
    using fns e4' by (simp add: code_of_extends_Some)
  have shape: "vo_at h' ?ip vd (vo_name F) (spread hp vd) bm ?n (length h4)"
    unfolding vo_at_def
    using len24 fns' nth2 [OF e2', of ?n] nth2 [OF e2', of "?n + 1"] nth2 [OF e2', of "?n + 2"]
      nth2 [OF e2', of "?n + 3"]
    by (simp add: h' f1' f2' f3' sp nth_append)
  have "extends hp h'" using ep2 e2' by (rule extends_trans)
  with v shape mf keys es' show ?thesis by blast
qed

section \<open>What \<open>equals\<close> computes\<close>

lemma strict_eq_imp_eq: "strict_eq a b \<Longrightarrow> a = b"
  by (induction a b rule: strict_eq.induct) auto

lemma strict_eq_Ref: "strict_eq (Ref p) x \<longleftrightarrow> x = Ref p"
proof (cases x)
  case (Num n)
  then show ?thesis by (cases n) auto
qed auto

lemma props_loop_builtin:
  assumes "own_method H other ''hasOwnProperty'' = None" and "inherits_builtins H other"
  shows "props_loop r this other ks H =
           (Inr (Bool (\<forall>k\<in>set ks. k \<in> set (map fst (own_props H other)) \<and>
                                   strict_eq (get H this k) (get H other k))), H)"
  using assms by (induction ks) auto

lemma get_member:
  "distinct (map fst (own_props h v)) \<Longrightarrow> (k, w) \<in> set (own_props h v) \<Longrightarrow> get h v k = w"
  by (simp add: get_def)

lemma data_props_eq:
  assumes "distinct (map fst (own_props h v))"
  shows "data_props h v = map fst (data_of h v)"
proof -
  have "filter (\<lambda>kv. typeof h (get h v (fst kv)) \<noteq> ''function'') (own_props h v) =
        filter (\<lambda>kv. typeof h (snd kv) \<noteq> ''function'') (own_props h v)"
    using assms by (intro filter_cong refl) (auto dest: get_member)
  then show ?thesis
    by (simp add: data_props_def data_of_def filter_map comp_def)
qed

lemma distinct_data_of:
  "distinct (map fst (own_props h v)) \<Longrightarrow> distinct (map fst (data_of h v))"
  by (simp add: data_of_def distinct_map_filter)

lemma data_of_member:
  "(k, w) \<in> set (data_of h v) \<longleftrightarrow> (k, w) \<in> set (own_props h v) \<and> typeof h w \<noteq> ''function''"
  by (auto simp: data_of_def)

lemma equals_code_imp_spec:
  assumes dt: "distinct (map fst (own_props H this))"
    and dx: "distinct (map fst (own_props H x))"
    and len: "length (data_props H this) = length (data_props H x)"
    and all: "\<And>k. k \<in> set (data_props H this) \<Longrightarrow>
                k \<in> set (map fst (own_props H x)) \<and> strict_eq (get H this k) (get H x k)"
  shows "same_fields (data_of H this) (data_of H x)"
proof -
  let ?A = "data_of H this" and ?B = "data_of H x"
  have dA: "distinct (map fst ?A)" and dB: "distinct (map fst ?B)"
    using dt dx by (simp_all add: distinct_data_of)
  have pA: "data_props H this = map fst ?A" and pB: "data_props H x = map fst ?B"
    using dt dx by (simp_all add: data_props_eq)
  have key: "\<exists>w. (k, w) \<in> set ?B \<and> strict_eq v w" if v: "(k, v) \<in> set ?A" for k v
  proof -
    from v have gv: "get H this k = v" and nf: "typeof H v \<noteq> ''function''"
      using get_member [OF dt, of k v] by (simp_all add: data_of_member)
    from v have "k \<in> set (data_props H this)"
      unfolding pA by (metis fst_conv image_eqI set_map)
    from all [OF this] have kx: "k \<in> set (map fst (own_props H x))"
      and se: "strict_eq (get H this k) (get H x k)" by blast+
    from kx obtain w where w: "(k, w) \<in> set (own_props H x)"
      by (metis (no_types, lifting) fst_conv imageE prod.collapse set_map)
    then have gw: "get H x k = w" using get_member [OF dx, of k w] by simp
    from se have "v = w" unfolding gv gw by (rule strict_eq_imp_eq)
    with w nf have "(k, w) \<in> set ?B" by (simp add: data_of_member)
    moreover from se have "strict_eq v w" unfolding gv gw .
    ultimately show ?thesis by blast
  qed
  have sub: "set (map fst ?A) \<subseteq> set (map fst ?B)"
  proof
    fix k assume "k \<in> set (map fst ?A)"
    then obtain v where "(k, v) \<in> set ?A"
      by (metis (no_types, lifting) fst_conv imageE prod.collapse set_map)
    from key [OF this] obtain w where "(k, w) \<in> set ?B" by blast
    then show "k \<in> set (map fst ?B)" by (metis fst_conv image_eqI set_map)
  qed
  have "card (set (map fst ?A)) = card (set (map fst ?B))"
    using len dA dB unfolding pA pB by (metis distinct_card)
  with sub have eq: "set (map fst ?A) = set (map fst ?B)"
    by (metis List.finite_set card_subset_eq)
  have "case map_of ?B (fst kv) of Some w \<Rightarrow> strict_eq (snd kv) w | None \<Rightarrow> False"
    if kv: "kv \<in> set ?A" for kv
  proof -
    obtain k v where kv': "kv = (k, v)" by (cases kv)
    from key [of k v] kv obtain w where w: "(k, w) \<in> set ?B" "strict_eq v w"
      unfolding kv' by blast
    from w(1) dB have "map_of ?B k = Some w" by (rule_tac map_of_is_SomeI)
    with w(2) show ?thesis by (simp add: kv')
  qed
  with eq show ?thesis unfolding same_fields_def by blast
qed

lemma equals_spec_imp_code:
  assumes dt: "distinct (map fst (own_props H this))"
    and dx: "distinct (map fst (own_props H x))"
    and spec: "same_fields (data_of H this) (data_of H x)"
  shows "length (data_props H this) = length (data_props H x) \<and>
         (\<forall>k\<in>set (data_props H this). k \<in> set (map fst (own_props H x)) \<and>
                strict_eq (get H this k) (get H x k))"
proof -
  let ?A = "data_of H this" and ?B = "data_of H x"
  have dA: "distinct (map fst ?A)" and dB: "distinct (map fst ?B)"
    using dt dx by (simp_all add: distinct_data_of)
  have pA: "data_props H this = map fst ?A" and pB: "data_props H x = map fst ?B"
    using dt dx by (simp_all add: data_props_eq)
  from spec have eq: "set (map fst ?A) = set (map fst ?B)"
    and vals: "\<And>kv. kv \<in> set ?A \<Longrightarrow>
        (case map_of ?B (fst kv) of Some w \<Rightarrow> strict_eq (snd kv) w | None \<Rightarrow> False)"
    unfolding same_fields_def by blast+
  have "length (map fst ?A) = length (map fst ?B)"
    using eq dA dB by (metis distinct_card)
  then have len: "length (data_props H this) = length (data_props H x)"
    unfolding pA pB .
  have "k \<in> set (map fst (own_props H x)) \<and> strict_eq (get H this k) (get H x k)"
    if "k \<in> set (data_props H this)" for k
  proof -
    from that obtain v where v: "(k, v) \<in> set ?A"
      unfolding pA by (metis (no_types, lifting) fst_conv imageE prod.collapse set_map)
    then have gv: "get H this k = v" using get_member [OF dt, of k v] by (simp add: data_of_member)
    from vals [OF v] obtain w where w: "map_of ?B k = Some w" and se: "strict_eq v w"
      by (auto split: option.splits)
    from w have "(k, w) \<in> set ?B" by (rule map_of_SomeD)
    then have wx: "(k, w) \<in> set (own_props H x)" by (simp add: data_of_member)
    then have gw: "get H x k = w" using get_member [OF dx, of k w] by simp
    from wx have "k \<in> set (map fst (own_props H x))" by (metis fst_conv image_eqI set_map)
    with se show ?thesis unfolding gv gw by simp
  qed
  with len show ?thesis by blast
qed

lemma equals_code_iff:
  assumes dt: "distinct (map fst (own_props H this))"
    and dx: "distinct (map fst (own_props H x))"
  shows "(length (data_props H this) = length (data_props H x) \<and>
          (\<forall>k\<in>set (data_props H this). k \<in> set (map fst (own_props H x)) \<and>
                strict_eq (get H this k) (get H x k)))
         \<longleftrightarrow> same_fields (data_of H this) (data_of H x)"
  using equals_code_imp_spec [OF dt dx] equals_spec_imp_code [OF dt dx] by blast

lemma call_equals_composite:
  assumes "\<not> nullish x"
    and "own_method H x ''hasOwnProperty'' = None"
    and "distinct (map fst (own_props H (Ref p)))"
    and "distinct (map fst (own_props H x))"
    and "inherits_builtins H x"
  shows "call_fn r (EqualsFn False) (Ref p) [x] H =
           (Inr (Bool (x = Ref p \<or> same_fields (data_of H (Ref p)) (data_of H x))), H)"
  using assms equals_code_iff [OF assms(3,4)]
  by (auto simp: Let_def strict_eq_Ref props_loop_builtin)

subsection \<open>\<open>equals\<close> of a created value object\<close>

lemma typeof_function: "code_of H v \<noteq> None \<Longrightarrow> typeof H v = ''function''"
  by (cases v) (auto simp: typeof_def code_of_def)

lemma in_obj_lit: "(k, v) \<in> set (obj_lit xs) \<longleftrightarrow> map_of (rev xs) k = Some v"
  using map_of_eq_Some_iff [OF distinct_obj_lit, of xs k v] by (simp add: map_of_obj_lit)

lemma same_fields_cong:
  assumes "set A = set A'" and "set B = set B'"
    and "distinct (map fst B)" and "distinct (map fst B')"
  shows "same_fields A B = same_fields A' B'"
proof -
  have "map_of B = map_of B'"
    using assms(2-4) by (intro map_of_inject_set [THEN iffD2]) simp_all
  moreover have "set (map fst A) = set (map fst A')" "set (map fst B) = set (map fst B')"
    using assms(1,2) by simp_all
  ultimately show ?thesis
    using assms(1) by (simp add: same_fields_def del: set_map)
qed

lemma own_props_Ref: "a < length H \<Longrightarrow> own_props H (Ref a) = props (H ! a)"
  by (simp add: own_props_def spread_def lookup_def)

lemma own_method_Ref: "a < length H \<Longrightarrow> own_method H (Ref a) k = map_of (props (H ! a)) k"
  by (simp add: own_method_def lookup_def)

lemma code_of_Ref: "a < length H \<Longrightarrow> code_of H (Ref a) = callable (H ! a)"
  by (simp add: code_of_def lookup_def)

lemma map_of_rev_None: "k \<notin> set (map fst xs) \<Longrightarrow> map_of (rev xs) k = None"
  by (simp add: map_of_eq_None_iff)

lemma vo_bounds:
  assumes "vo_at H ip vd nm fs bm n m"
  shows "n + 3 < m" "m + 3 < length H"
  using assms by (simp_all add: vo_at_def)

lemma vo_proto_props:
  assumes "vo_at H ip vd nm fs bm n m"
  shows "own_props H (Ref (n + 3)) = obj_lit (fs @
           [(''valueOf'', Ref n), (''equals'', Ref (n + 1)), (''toString'', Ref (n + 2))])"
  using assms by (simp add: vo_at_def own_props_Ref)

lemma vo_inst_props:
  assumes "vo_at H ip vd nm fs bm n m"
  shows "own_props H (Ref (m + 3)) = obj_lit (fs @
           [(''valueOf'', Ref m), (''equals'', Ref (m + 1)), (''toString'', Ref (m + 2))] @ bm)"
  using assms by (simp add: vo_at_def own_props_Ref)

lemma vo_codes:
  assumes "vo_at H ip vd nm fs bm n m"
  shows "code_of H (Ref n) = Some (ValueOfFn ip (if ip then vd else Undefined) vd)"
    and "code_of H (Ref (n + 1)) = Some (EqualsFn ip)"
    and "code_of H (Ref (n + 2)) = Some (ToStringFn ip (if ip then vd else Undefined) vd nm)"
    and "code_of H (Ref m) =
           Some (BoundFn (ValueOfFn ip (if ip then vd else Undefined) vd) (Ref (n + 3)))"
    and "code_of H (Ref (m + 1)) = Some (BoundFn (EqualsFn ip) (Ref (n + 3)))"
    and "code_of H (Ref (m + 2)) =
           Some (BoundFn (ToStringFn ip (if ip then vd else Undefined) vd nm) (Ref (n + 3)))"
    and "code_of H (Ref (n + 3)) = None"
    and "code_of H (Ref (m + 3)) = None"
  using assms by (simp_all add: vo_at_def code_of_Ref)

lemma vo_inst_inherits:
  assumes "vo_at H ip vd nm fs bm n m"
  shows "inherits_builtins H (Ref (m + 3))"
  using assms by (simp add: vo_at_def inherits_builtins_def lookup_def)

lemma vo_inst_method:
  assumes "vo_at H ip vd nm fs bm n m" and "k \<notin> set (map fst bm)"
  shows "own_method H (Ref (m + 3)) k =
           map_of ([(''toString'', Ref (m + 2)), (''equals'', Ref (m + 1)), (''valueOf'', Ref m)] @
                   rev fs) k"
proof -
  have "own_method H (Ref (m + 3)) k = map_of (props (H ! (m + 3))) k"
    using vo_bounds [OF assms(1)] by (simp add: own_method_Ref)
  also have "\<dots> = map_of (rev bm @
      [(''toString'', Ref (m + 2)), (''equals'', Ref (m + 1)), (''valueOf'', Ref m)] @ rev fs) k"
    using assms(1) by (simp add: vo_at_def map_of_obj_lit)
  also have "\<dots> = map_of ([(''toString'', Ref (m + 2)), (''equals'', Ref (m + 1)),
      (''valueOf'', Ref m)] @ rev fs) k"
    using map_of_rev_None [OF assms(2)] by (simp add: map_add_def del: set_map)
  finally show ?thesis .
qed

lemma vo_proto_method:
  assumes "vo_at H ip vd nm fs bm n m"
  shows "own_method H (Ref (n + 3)) k =
           map_of ([(''toString'', Ref (n + 2)), (''equals'', Ref (n + 1)), (''valueOf'', Ref n)] @
                   rev fs) k"
proof -
  have "n + 3 < length H" using vo_bounds [OF assms] by simp
  then have "own_method H (Ref (n + 3)) k = map_of (props (H ! (n + 3))) k"
    by (simp add: own_method_Ref)
  then show ?thesis using assms by (simp add: vo_at_def map_of_obj_lit)
qed

lemma vo_invoke_equals:
  assumes "vo_at H ip vd nm fs bm n m" and "''equals'' \<notin> set (map fst bm)"
  shows "invoke r (Ref (m + 3)) ''equals'' args H = call_fn r (EqualsFn ip) (Ref (n + 3)) args H"
  using vo_inst_method [OF assms] vo_codes(5) [OF assms(1)]
  by (simp add: invoke_def)

lemma vo_invoke_valueOf:
  assumes "vo_at H ip vd nm fs bm n m" and "''valueOf'' \<notin> set (map fst bm)"
  shows "invoke r (Ref (m + 3)) ''valueOf'' args H =
           valueOf_body ip (if ip then vd else Undefined) vd (Ref (n + 3)) H"
  using vo_inst_method [OF assms] vo_codes(4) [OF assms(1)]
  by (simp add: invoke_def)

lemma vo_proto_data:
  assumes "vo_at H ip vd nm fs bm n m"
  shows "set (data_of H (Ref (n + 3))) = set (data_fields H fs)"
proof -
  have fn: "typeof H (Ref n) = ''function''" "typeof H (Ref (n + 1)) = ''function''"
    "typeof H (Ref (n + 2)) = ''function''"
    using vo_codes(1-3) [OF assms] by (simp_all add: typeof_function)
  have "(k, v) \<in> set (data_of H (Ref (n + 3))) \<longleftrightarrow> (k, v) \<in> set (data_fields H fs)" for k v
    using fn by (auto simp: data_of_member vo_proto_props [OF assms] data_fields_def in_obj_lit
        std_names_def split: if_splits)
  then show ?thesis by auto
qed

lemma vo_inst_data:
  assumes "vo_at H ip vd nm fs bm n m"
    and "set (map fst bm) \<inter> set (map fst fs) = {}"
  shows "set (data_of H (Ref (m + 3))) = set (data_fields H fs)"
proof -
  have fn: "typeof H (Ref m) = ''function''" "typeof H (Ref (m + 1)) = ''function''"
    "typeof H (Ref (m + 2)) = ''function''"
    using vo_codes(4-6) [OF assms(1)] by (simp_all add: typeof_function)
  have bmfn: "typeof H v = ''function''" if "map_of (rev bm) k = Some v" for k v
  proof -
    from that have "(k, v) \<in> set bm" using map_of_SomeD by fastforce
    then have "code_of H v \<noteq> None" using assms(1) by (force simp: vo_at_def)
    then show ?thesis by (rule typeof_function)
  qed
  have nobm: "map_of (rev bm) k = None" if "map_of (rev fs) k = Some v" for k v
  proof -
    from that have "(k, v) \<in> set fs" using map_of_SomeD by fastforce
    then have "k \<in> set (map fst fs)" by force
    with assms(2) have "k \<notin> set (map fst bm)" by blast
    then show ?thesis by (rule map_of_rev_None)
  qed
  have "(k, v) \<in> set (data_of H (Ref (m + 3))) \<longleftrightarrow> (k, v) \<in> set (data_fields H fs)" for k v
  proof (cases "map_of (rev bm) k")
    case None
    then show ?thesis using fn
      by (auto simp: data_of_member vo_inst_props [OF assms(1)] data_fields_def in_obj_lit
        std_names_def map_add_def split: if_splits)
  next
    case (Some w)
    then have "typeof H w = ''function''" by (rule bmfn)
    moreover have "map_of (rev fs) k = None" using Some nobm by (cases "map_of (rev fs) k") auto
    ultimately show ?thesis using Some
      by (auto simp: data_of_member vo_inst_props [OF assms(1)] data_fields_def in_obj_lit
        map_add_def)
  qed
  then show ?thesis by auto
qed

lemma distinct_data_fields: "distinct (map fst (data_fields H fs))"
  by (simp add: data_fields_def distinct_map_filter distinct_obj_lit)

lemma vo_equals_composite:
  assumes vo: "vo_at H False vd nm fs bm n m"
    and eq: "''equals'' \<notin> set (map fst bm)"
    and x: "\<not> nullish x"
    and ho: "own_method H x ''hasOwnProperty'' = None"
    and dx: "distinct (map fst (own_props H x))"
    and inh: "inherits_builtins H x"
  shows "invoke r (Ref (m + 3)) ''equals'' [x] H =
           (Inr (Bool (x = Ref (n + 3) \<or> same_fields (data_fields H fs) (data_of H x))), H)"
proof -
  have dp: "distinct (map fst (own_props H (Ref (n + 3))))"
    by (simp add: vo_proto_props [OF vo] distinct_obj_lit)
  have sf: "same_fields (data_of H (Ref (n + 3))) (data_of H x) =
        same_fields (data_fields H fs) (data_of H x)"
    by (rule same_fields_cong)
       (simp_all add: vo_proto_data [OF vo] distinct_data_of [OF dx])
  have "invoke r (Ref (m + 3)) ''equals'' [x] H = call_fn r (EqualsFn False) (Ref (n + 3)) [x] H"
    by (rule vo_invoke_equals [OF vo eq])
  also have "\<dots> =
      (Inr (Bool (x = Ref (n + 3) \<or> same_fields (data_of H (Ref (n + 3))) (data_of H x))), H)"
    by (rule call_equals_composite [OF x ho dp dx inh])
  finally show ?thesis unfolding sf .
qed

lemma vo_equals_vo_composite:
  assumes vo1: "vo_at H False vd1 nm1 fs1 bm1 n1 m1"
    and vo2: "vo_at H ip2 vd2 nm2 fs2 bm2 n2 m2"
    and eq: "''equals'' \<notin> set (map fst bm1)"
    and ho: "''hasOwnProperty'' \<notin> set (map fst bm2) \<union> set (map fst fs2)"
    and sh: "set (map fst bm2) \<inter> set (map fst fs2) = {}"
  shows "invoke r (Ref (m1 + 3)) ''equals'' [Ref (m2 + 3)] H =
           (Inr (Bool (same_fields (data_fields H fs1) (data_fields H fs2))), H)"
proof -
  have ne: "Ref (m2 + 3) \<noteq> Ref (n1 + 3)"
  proof
    assume "Ref (m2 + 3) = Ref (n1 + 3)"
    then have "H ! (m2 + 3) = H ! (n1 + 3)" by simp
    then have "frozen (H ! (m2 + 3)) = frozen (H ! (n1 + 3))" by simp
    then show False using vo1 vo2 by (simp add: vo_at_def)
  qed
  have ho': "own_method H (Ref (m2 + 3)) ''hasOwnProperty'' = None"
    using ho vo_inst_method [OF vo2, of "''hasOwnProperty''"]
    by (simp add: map_of_rev_None del: set_map)
  have dx: "distinct (map fst (own_props H (Ref (m2 + 3))))"
    by (simp add: vo_inst_props [OF vo2] distinct_obj_lit)
  have inh: "inherits_builtins H (Ref (m2 + 3))"
    by (rule vo_inst_inherits [OF vo2])
  have sf: "same_fields (data_fields H fs1) (data_of H (Ref (m2 + 3))) =
        same_fields (data_fields H fs1) (data_fields H fs2)"
    by (rule same_fields_cong)
       (simp_all add: vo_inst_data [OF vo2 sh] distinct_data_of [OF dx] distinct_data_fields)
  show ?thesis
    using vo_equals_composite [OF vo1 eq _ ho' dx inh, of r] ne by (simp add: sf)
qed

lemma vo_equals_vo_primitive:
  assumes vo1: "vo_at H True vd1 nm1 fs1 bm1 n1 m1"
    and vo2: "vo_at H True vd2 nm2 fs2 bm2 n2 m2"
    and eq: "''equals'' \<notin> set (map fst bm1)"
    and vf: "''valueOf'' \<notin> set (map fst bm2)"
  shows "invoke r (Ref (m1 + 3)) ''equals'' [Ref (m2 + 3)] H =
           (Inr (Bool (strict_eq vd1 vd2)), H)"
proof -
  have ne: "Ref (m2 + 3) \<noteq> Ref (n1 + 3)"
  proof
    assume "Ref (m2 + 3) = Ref (n1 + 3)"
    then have "H ! (m2 + 3) = H ! (n1 + 3)" by simp
    then have "frozen (H ! (m2 + 3)) = frozen (H ! (n1 + 3))" by simp
    then show False using vo1 vo2 by (simp add: vo_at_def)
  qed
  have this_valueOf: "own_method H (Ref (n1 + 3)) ''valueOf'' = Some (Ref n1)"
    by (simp add: vo_proto_method [OF vo1])
  have other_valueOf: "own_method H (Ref (m2 + 3)) ''valueOf'' = Some (Ref m2)"
    using vf by (simp add: vo_inst_method [OF vo2])
  have "invoke r (Ref (m1 + 3)) ''equals'' [Ref (m2 + 3)] H =
          call_fn r (EqualsFn True) (Ref (n1 + 3)) [Ref (m2 + 3)] H"
    by (rule vo_invoke_equals [OF vo1 eq])
  also have "\<dots> = (Inr (Bool (strict_eq vd1 vd2)), H)"
    using ne this_valueOf other_valueOf vo_codes(1) [OF vo1] vo_codes(4) [OF vo2]
    by (simp add: strict_eq_Ref valueOf_body_def)
  finally show ?thesis .
qed

section \<open>Value equality\<close>

lemma avoidsD:
  "avoids mf N \<Longrightarrow> mf h = (Inr ms, h') \<Longrightarrow> k \<in> N \<Longrightarrow> k \<notin> set (map fst (spread h' ms))"
  unfolding avoids_def by blast

text \<open>
  C1, as the code has it. Let the schema's \<^verbatim>\<open>parse\<close> and the \<^verbatim>\<open>methodsFactory\<close> only
  allocate, and let no custom method be named \<^verbatim>\<open>equals\<close>, \<^verbatim>\<open>valueOf\<close>,
  \<^verbatim>\<open>hasOwnProperty\<close> or like a validated field. For inputs \<open>d1\<close> and \<open>d2\<close> that
  \<^verbatim>\<open>create\<close> accepts, \<^verbatim>\<open>create(d1).equals(create(d2))\<close> returns whether the validated
  data agree: for a primitive wrapper, whether the two validated values are strictly
  equal; otherwise, whether the validated fields that are data have the same names and
  pairwise strictly equal values.
\<close>

theorem create_equals_compares_validated_data:
  assumes al: "allocating (vo_methodsFactory F)"
    and alp: "allocating (parse (vo_schema F) d2)"
    and p1: "parse (vo_schema F) d1 h = (Inr vd1, hp1)" and wf1: "wf_val hp1 vd1"
    and c1: "create F d1 h = (Inr v1, h1)"
    and p2: "parse (vo_schema F) d2 h1 = (Inr vd2, hp2)" and wf2: "wf_val hp2 vd2"
    and c2: "create F d2 h1 = (Inr v2, h2)"
    and av: "avoids (vo_methodsFactory F)
               ({''equals'', ''valueOf'', ''hasOwnProperty''} \<union> set (map fst (spread hp2 vd2)))"
    and nh: "''hasOwnProperty'' \<notin> set (map fst (spread hp2 vd2))"
  shows "equals_of_creates r F d1 d2 h =
           (Inr (Bool (if vo_isPrimitive F then strict_eq vd1 vd2
                       else same_fields (data_fields h2 (spread hp1 vd1))
                                        (data_fields h2 (spread hp2 vd2)))), h2)"
proof -
  from create_shape [OF c1 p1 wf1 al] obtain bm1 m1 ha1 ms1 hb1 where
    v1: "v1 = Ref (m1 + 3)" and
    s1: "vo_at h1 (vo_isPrimitive F) vd1 (vo_name F) (spread hp1 vd1) bm1 (length hp1) m1" and
    mf1: "vo_methodsFactory F ha1 = (Inr ms1, hb1)" and
    k1: "set (map fst bm1) = set (map fst (spread hb1 ms1))"
    by blast
  from create_shape [OF c2 p2 wf2 al] obtain bm2 m2 ha2 ms2 hb2 where
    v2: "v2 = Ref (m2 + 3)" and
    s2: "vo_at h2 (vo_isPrimitive F) vd2 (vo_name F) (spread hp2 vd2) bm2 (length hp2) m2" and
    e2: "extends hp2 h2" and
    mf2: "vo_methodsFactory F ha2 = (Inr ms2, hb2)" and
    k2: "set (map fst bm2) = set (map fst (spread hb2 ms2))"
    by blast
  have "extends h1 hp2" using alp p2 by (rule allocatingD)
  then have "extends h1 h2" using e2 by (rule extends_trans)
  with s1 have s1': "vo_at h2 (vo_isPrimitive F) vd1 (vo_name F) (spread hp1 vd1) bm1 (length hp1) m1"
    by (rule vo_at_extends)
  have eq1: "''equals'' \<notin> set (map fst bm1)"
    unfolding k1 by (rule avoidsD [OF av mf1]) simp
  have vf2: "''valueOf'' \<notin> set (map fst bm2)"
    unfolding k2 by (rule avoidsD [OF av mf2]) simp
  have ho2: "''hasOwnProperty'' \<notin> set (map fst bm2) \<union> set (map fst (spread hp2 vd2))"
    using avoidsD [OF av mf2, of "''hasOwnProperty''"] nh unfolding k2 by simp
  have sh2: "set (map fst bm2) \<inter> set (map fst (spread hp2 vd2)) = {}"
    using avoidsD [OF av mf2] unfolding k2 by blast
  have "equals_of_creates r F d1 d2 h = invoke r v1 ''equals'' [v2] h2"
    by (simp add: equals_of_creates_def seq_def c1 c2)
  also have "\<dots> = (Inr (Bool (if vo_isPrimitive F then strict_eq vd1 vd2
                       else same_fields (data_fields h2 (spread hp1 vd1))
                                        (data_fields h2 (spread hp2 vd2)))), h2)"
  proof (cases "vo_isPrimitive F")
    case True
    with s1' s2 have "vo_at h2 True vd1 (vo_name F) (spread hp1 vd1) bm1 (length hp1) m1"
      "vo_at h2 True vd2 (vo_name F) (spread hp2 vd2) bm2 (length hp2) m2" by simp_all
    from vo_equals_vo_primitive [OF this eq1 vf2] True show ?thesis
      by (simp add: v1 v2)
  next
    case False
    with s1' have "vo_at h2 False vd1 (vo_name F) (spread hp1 vd1) bm1 (length hp1) m1" by simp
    from vo_equals_vo_composite [OF this s2 eq1 ho2 sh2] False show ?thesis
      by (simp add: v1 v2)
  qed
  finally show ?thesis .
qed

lemma no_methods_allocating: "allocating no_methods"
  by (simp add: allocating_def no_methods_def new_obj_def alloc_def extends_append)

lemma no_methods_avoids: "avoids no_methods N"
  by (auto simp: avoids_def no_methods_def new_obj_def alloc_def spread_def lookup_def)

lemma object_schema_allocating: "allocating (parse (object_schema ks) d)"
  by (auto simp: allocating_def object_schema_def new_obj_def alloc_def extends_append
      extends_refl split: list.splits)

text \<open>
  The theorem at a \<open>Money\<close> made twice from the same input, and at two made from inputs
  with different amounts.
\<close>

theorem create_equals_compares_validated_data_witness:
  "fst (equals_of_creates no_host Money (Ref 0) (Ref 0) h_two) = Inr (Bool True) \<and>
   fst (equals_of_creates no_host Money (Ref 0) (Ref 1) h_two) = Inr (Bool False)"
proof -
  have al: "allocating (vo_methodsFactory Money)"
    by (simp add: Money_def no_methods_allocating)
  have alp: "allocating (parse (vo_schema Money) d)" for d
    by (simp add: Money_def object_schema_allocating)
  have av: "avoids (vo_methodsFactory Money) N" for N
    by (simp add: Money_def no_methods_avoids)
  define hp1 where "hp1 = snd (parse (vo_schema Money) (Ref 0) h_two)"
  define h1 where "h1 = snd (create Money (Ref 0) h_two)"
  have p1: "parse (vo_schema Money) (Ref 0) h_two = (Inr (Ref 2), hp1)"
    unfolding hp1_def by (rule pair_fst_snd) code_simp
  have wf1: "wf_val hp1 (Ref 2)" unfolding hp1_def by code_simp
  have c1: "create Money (Ref 0) h_two = (Inr (Ref 11), h1)"
    unfolding h1_def by (rule pair_fst_snd) code_simp
  have same: "fst (equals_of_creates no_host Money (Ref 0) (Ref 0) h_two) = Inr (Bool True)"
  proof -
    define hp2 where "hp2 = snd (parse (vo_schema Money) (Ref 0) h1)"
    define h2 where "h2 = snd (create Money (Ref 0) h1)"
    have p2: "parse (vo_schema Money) (Ref 0) h1 = (Inr (Ref 12), hp2)"
      unfolding hp2_def h1_def by (rule pair_fst_snd) code_simp
    have wf2: "wf_val hp2 (Ref 12)" unfolding hp2_def h1_def by code_simp
    have c2: "create Money (Ref 0) h1 = (Inr (Ref 21), h2)"
      unfolding h2_def h1_def by (rule pair_fst_snd) code_simp
    have nh: "''hasOwnProperty'' \<notin> set (map fst (spread hp2 (Ref 12)))"
      unfolding hp2_def h1_def by code_simp
    have r: "same_fields (data_fields h2 (spread hp1 (Ref 2))) (data_fields h2 (spread hp2 (Ref 12)))"
      unfolding hp1_def hp2_def h2_def h1_def by code_simp
    from create_equals_compares_validated_data [OF al alp p1 wf1 c1 p2 wf2 c2 av nh, of no_host] r
    show ?thesis by (simp add: Money_def)
  qed
  have differ: "fst (equals_of_creates no_host Money (Ref 0) (Ref 1) h_two) = Inr (Bool False)"
  proof -
    define hp2 where "hp2 = snd (parse (vo_schema Money) (Ref 1) h1)"
    define h2 where "h2 = snd (create Money (Ref 1) h1)"
    have p2: "parse (vo_schema Money) (Ref 1) h1 = (Inr (Ref 12), hp2)"
      unfolding hp2_def h1_def by (rule pair_fst_snd) code_simp
    have wf2: "wf_val hp2 (Ref 12)" unfolding hp2_def h1_def by code_simp
    have c2: "create Money (Ref 1) h1 = (Inr (Ref 21), h2)"
      unfolding h2_def h1_def by (rule pair_fst_snd) code_simp
    have nh: "''hasOwnProperty'' \<notin> set (map fst (spread hp2 (Ref 12)))"
      unfolding hp2_def h1_def by code_simp
    have r: "\<not> same_fields (data_fields h2 (spread hp1 (Ref 2))) (data_fields h2 (spread hp2 (Ref 12)))"
      unfolding hp1_def hp2_def h2_def h1_def by code_simp
    from create_equals_compares_validated_data [OF al alp p1 wf1 c1 p2 wf2 c2 av nh, of no_host] r
    show ?thesis by (simp add: Money_def)
  qed
  from same differ show ?thesis by simp
qed

text \<open>
  C1 as stated fails in both halves. An accepted input with a \<^verbatim>\<open>NaN\<close> field is not equal
  to itself; and two accepted inputs that differ in a field the schema drops are equal.
\<close>

theorem create_equals_counterexample:
  "fst (parse (vo_schema Money) (Ref 0) h_nan) = Inr (Ref 1) \<and>
   fst (equals_of_creates no_host Money (Ref 0) (Ref 0) h_nan) = Inr (Bool False) \<and>
   fst (parse (vo_schema Money) (Ref 0) h_notes) = Inr (Ref 2) \<and>
   fst (parse (vo_schema Money) (Ref 1) h_notes) = Inr (Ref 2) \<and>
   get h_notes (Ref 0) ''note'' \<noteq> get h_notes (Ref 1) ''note'' \<and>
   fst (equals_of_creates no_host Money (Ref 0) (Ref 1) h_notes) = Inr (Bool True)"
proof -
  have a: "fst (parse (vo_schema Money) (Ref 0) h_nan) = Inr (Ref 1)" by code_simp
  have b: "fst (equals_of_creates no_host Money (Ref 0) (Ref 0) h_nan) = Inr (Bool False)"
    by code_simp
  have c: "fst (parse (vo_schema Money) (Ref 0) h_notes) = Inr (Ref 2)" by code_simp
  have d: "fst (parse (vo_schema Money) (Ref 1) h_notes) = Inr (Ref 2)" by code_simp
  have e: "get h_notes (Ref 0) ''note'' \<noteq> get h_notes (Ref 1) ''note''" by code_simp
  have f: "fst (equals_of_creates no_host Money (Ref 0) (Ref 1) h_notes) = Inr (Bool True)"
    by code_simp
  from a b c d e f show ?thesis by blast
qed

section \<open>Equality with any object\<close>

text \<open>
  C10, as the code has it. Let \<open>v\<close> be created by a factory that is not a primitive
  wrapper, whose \<^verbatim>\<open>methodsFactory\<close> only allocates and returns no method named
  \<^verbatim>\<open>equals\<close> or like a validated field; let the heap have only grown since that call,
  so that nothing has written to the objects it made, the prototype that \<^verbatim>\<open>v.valueOf()\<close>
  hands out among them; and let \<open>x\<close> be an object that is not a function, whose prototype
  is the built-in one and that has no own \<^verbatim>\<open>hasOwnProperty\<close>. If the own properties of
  \<open>x\<close> that are not functions agree with those of \<open>v\<close> (same names, strictly equal
  values), then \<^verbatim>\<open>v.equals(x)\<close> returns \<^verbatim>\<open>true\<close>, whatever made \<open>x\<close>.
\<close>

theorem equals_ignores_producing_factory:
  assumes comp: "\<not> vo_isPrimitive F"
    and al: "allocating (vo_methodsFactory F)"
    and p: "parse (vo_schema F) d h = (Inr vd, hp)" and wf: "wf_val hp vd"
    and av: "avoids (vo_methodsFactory F) ({''equals''} \<union> set (map fst (spread hp vd)))"
    and c: "create F d h = (Inr v, h1)"
    and ext: "extends h1 H"
    and ob: "typeof H x = ''object''"
    and inh: "inherits_builtins H x"
    and ho: "own_method H x ''hasOwnProperty'' = None"
    and dx: "distinct (map fst (own_props H x))"
    and match: "same_fields (data_of H v) (data_of H x)"
  shows "invoke r v ''equals'' [x] H = (Inr (Bool True), H)"
proof -
  from create_shape [OF c p wf al] obtain bm m ha ms hb where
    v: "v = Ref (m + 3)" and
    s: "vo_at h1 (vo_isPrimitive F) vd (vo_name F) (spread hp vd) bm (length hp) m" and
    mf: "vo_methodsFactory F ha = (Inr ms, hb)" and
    k: "set (map fst bm) = set (map fst (spread hb ms))"
    by blast
  from s comp have "vo_at h1 False vd (vo_name F) (spread hp vd) bm (length hp) m" by simp
  then have s': "vo_at H False vd (vo_name F) (spread hp vd) bm (length hp) m"
    using ext by (rule vo_at_extends)
  have eq: "''equals'' \<notin> set (map fst bm)"
    unfolding k by (rule avoidsD [OF av mf]) simp
  have sh: "set (map fst bm) \<inter> set (map fst (spread hp vd)) = {}"
    using avoidsD [OF av mf] unfolding k by blast
  have "same_fields (data_fields H (spread hp vd)) (data_of H x) =
        same_fields (data_of H v) (data_of H x)"
    unfolding v
    by (rule same_fields_cong)
       (simp_all add: vo_inst_data [OF s' sh] distinct_data_of [OF dx])
  with match have m': "same_fields (data_fields H (spread hp vd)) (data_of H x)" by simp
  have "\<not> nullish x" using inh by (cases x) (simp_all add: inherits_builtins_def)
  from vo_equals_composite [OF s' eq this ho dx inh, of r] m' show ?thesis
    by (simp add: v)
qed

text \<open>
  The theorem at a \<open>Money\<close> and a \<open>Price\<close> made from the same input: the \<open>Money\<close> equals
  the \<open>Price\<close>; and at the \<open>Money\<close> and the plain object it was made from.
\<close>

theorem equals_ignores_producing_factory_witness:
  "fst (create Money (Ref 0) h_money) = Inr (Ref 10) \<and>
   fst (create Price (Ref 0) (snd (create Money (Ref 0) h_money))) = Inr (Ref 20) \<and>
   invoke no_host (Ref 10) ''equals'' [Ref 20]
       (snd (create Price (Ref 0) (snd (create Money (Ref 0) h_money)))) =
     (Inr (Bool True), snd (create Price (Ref 0) (snd (create Money (Ref 0) h_money)))) \<and>
   invoke no_host (Ref 10) ''equals'' [Ref 0]
       (snd (create Price (Ref 0) (snd (create Money (Ref 0) h_money)))) =
     (Inr (Bool True), snd (create Price (Ref 0) (snd (create Money (Ref 0) h_money))))"
proof -
  define hp where "hp = snd (parse (vo_schema Money) (Ref 0) h_money)"
  define h1 where "h1 = snd (create Money (Ref 0) h_money)"
  define H where "H = snd (create Price (Ref 0) h1)"
  have comp: "\<not> vo_isPrimitive Money" by (simp add: Money_def)
  have al: "allocating (vo_methodsFactory Money)"
    by (simp add: Money_def no_methods_allocating)
  have av: "avoids (vo_methodsFactory Money) N" for N
    by (simp add: Money_def no_methods_avoids)
  have p: "parse (vo_schema Money) (Ref 0) h_money = (Inr (Ref 1), hp)"
    unfolding hp_def by (rule pair_fst_snd) code_simp
  have wf: "wf_val hp (Ref 1)" unfolding hp_def by code_simp
  have c0: "fst (create Money (Ref 0) h_money) = Inr (Ref 10)"
    by code_simp
  then have c: "create Money (Ref 0) h_money = (Inr (Ref 10), h1)"
    unfolding h1_def by (rule pair_fst_snd)
  have c': "fst (create Price (Ref 0) h1) = Inr (Ref 20)"
    unfolding h1_def by code_simp
  have ext: "extends h1 H" unfolding H_def h1_def by code_simp
  have g1: "data_of H (Ref 10) = [(''amount'', Num (Fin 1)), (''currency'', Str ''USD'')]"
    unfolding H_def h1_def by code_simp
  have price: "invoke no_host (Ref 10) ''equals'' [Ref 20] H = (Inr (Bool True), H)"
  proof -
    have ob: "typeof H (Ref 20) = ''object''"
      unfolding H_def h1_def by code_simp
    have inh: "inherits_builtins H (Ref 20)"
      unfolding H_def h1_def by code_simp
    have ho: "own_method H (Ref 20) ''hasOwnProperty'' = None"
      unfolding H_def h1_def by code_simp
    have dx: "distinct (map fst (own_props H (Ref 20)))"
      unfolding H_def h1_def by code_simp
    have g2: "data_of H (Ref 20) = [(''amount'', Num (Fin 1)), (''currency'', Str ''USD'')]"
      unfolding H_def h1_def by code_simp
    have match: "same_fields (data_of H (Ref 10)) (data_of H (Ref 20))"
      unfolding g1 g2 by (simp add: same_fields_def)
    show ?thesis
      by (rule equals_ignores_producing_factory [OF comp al p wf av c ext ob inh ho dx match])
  qed
  have plain: "invoke no_host (Ref 10) ''equals'' [Ref 0] H = (Inr (Bool True), H)"
  proof -
    have ob: "typeof H (Ref 0) = ''object''"
      unfolding H_def h1_def by code_simp
    have inh: "inherits_builtins H (Ref 0)"
      unfolding H_def h1_def by code_simp
    have ho: "own_method H (Ref 0) ''hasOwnProperty'' = None"
      unfolding H_def h1_def by code_simp
    have dx: "distinct (map fst (own_props H (Ref 0)))"
      unfolding H_def h1_def by code_simp
    have g2: "data_of H (Ref 0) = [(''amount'', Num (Fin 1)), (''currency'', Str ''USD'')]"
      unfolding H_def h1_def by code_simp
    have match: "same_fields (data_of H (Ref 10)) (data_of H (Ref 0))"
      unfolding g1 g2 by (simp add: same_fields_def)
    show ?thesis
      by (rule equals_ignores_producing_factory [OF comp al p wf av c ext ob inh ho dx match])
  qed
  from c0 c' price plain show ?thesis unfolding H_def h1_def by blast
qed

text \<open>
  C10 as stated fails. The object \<open>x\<close> with the prototype \<^verbatim>\<open>null\<close>, in the manner of
  \<^verbatim>\<open>Object.assign(Object.create(null), {amount: 1, currency: 'USD'})\<close>, has exactly the
  own properties that are not functions of the \<open>Money\<close> \<open>v\<close>, and no other property, and
  \<^verbatim>\<open>v.equals(x)\<close> throws a \<^verbatim>\<open>TypeError\<close>. The plain object \<open>y\<close>, in the manner of
  \<^verbatim>\<open>{amount: 1, currency: 'USD', hasOwnProperty() { return false; }}\<close>, has the same own
  properties that are not functions as \<open>v\<close>, and \<^verbatim>\<open>v.equals(y)\<close> returns \<^verbatim>\<open>false\<close>.
\<close>

theorem equals_ignores_producing_factory_counterexample:
  "fst (create Money (Ref 0) h_money) = Inr (Ref 10) \<and>
   data_of h_bare (Ref 10) = [(''amount'', Num (Fin 1)), (''currency'', Str ''USD'')] \<and>
   own_props h_bare (Ref 11) = [(''amount'', Num (Fin 1)), (''currency'', Str ''USD'')] \<and>
   data_of h_bare (Ref 11) = [(''amount'', Num (Fin 1)), (''currency'', Str ''USD'')] \<and>
   typeof h_bare (Ref 11) = ''object'' \<and>
   fst (invoke no_host (Ref 10) ''equals'' [Ref 11] h_bare) =
     Inl (TypeError ''other.hasOwnProperty is not a function'') \<and>
   data_of h_denying (Ref 10) = [(''amount'', Num (Fin 1)), (''currency'', Str ''USD'')] \<and>
   data_of h_denying (Ref 12) = [(''amount'', Num (Fin 1)), (''currency'', Str ''USD'')] \<and>
   fst (invoke denying_host (Ref 10) ''equals'' [Ref 12] h_denying) = Inr (Bool False)"
proof -
  have a: "fst (create Money (Ref 0) h_money) = Inr (Ref 10)" by code_simp
  have b: "data_of h_denying (Ref 10) = [(''amount'', Num (Fin 1)), (''currency'', Str ''USD'')]"
    by code_simp
  have c: "data_of h_denying (Ref 12) = [(''amount'', Num (Fin 1)), (''currency'', Str ''USD'')]"
    by code_simp
  have d: "fst (invoke denying_host (Ref 10) ''equals'' [Ref 12] h_denying) = Inr (Bool False)"
    by code_simp
  have e: "data_of h_bare (Ref 10) = [(''amount'', Num (Fin 1)), (''currency'', Str ''USD'')]"
    by code_simp
  have f: "own_props h_bare (Ref 11) = [(''amount'', Num (Fin 1)), (''currency'', Str ''USD'')]"
    by code_simp
  have g: "data_of h_bare (Ref 11) = [(''amount'', Num (Fin 1)), (''currency'', Str ''USD'')]"
    by code_simp
  have i: "typeof h_bare (Ref 11) = ''object''" by code_simp
  have j: "fst (invoke no_host (Ref 10) ''equals'' [Ref 11] h_bare) =
     Inl (TypeError ''other.hasOwnProperty is not a function'')"
    by code_simp
  from a b c d e f g i j show ?thesis by blast
qed

text \<open>
  With a custom method named like a validated field the prototype, on which \<^verbatim>\<open>equals\<close>
  runs, keeps the field that the returned object lost to the method: the object \<open>x\<close> with
  the one field \<^verbatim>\<open>amount\<close> has the own data properties of \<open>v\<close>, and \<^verbatim>\<open>v.equals(x)\<close>
  returns \<^verbatim>\<open>false\<close>.
\<close>

lemma equals_compares_the_prototype:
  "fst (create Labelled (Ref 0) h_money) = Inr (Ref 12) \<and>
   data_of h_labelled (Ref 12) = [(''amount'', Num (Fin 1))] \<and>
   data_of h_labelled (Ref 13) = [(''amount'', Num (Fin 1))] \<and>
   fst (invoke no_host (Ref 12) ''equals'' [Ref 13] h_labelled) = Inr (Bool False)"
proof -
  have a: "fst (create Labelled (Ref 0) h_money) = Inr (Ref 12)" by code_simp
  have b: "data_of h_labelled (Ref 12) = [(''amount'', Num (Fin 1))]" by code_simp
  have c: "data_of h_labelled (Ref 13) = [(''amount'', Num (Fin 1))]" by code_simp
  have d: "fst (invoke no_host (Ref 12) ''equals'' [Ref 13] h_labelled) = Inr (Bool False)"
    by code_simp
  from a b c d show ?thesis by blast
qed

text \<open>
  Why the heap must not have been written to. \<^verbatim>\<open>v.valueOf()\<close> hands out the prototype
  (address 5), on which \<^verbatim>\<open>equals\<close> runs and which is not frozen. Before a write to it,
  \<open>v\<close> equals the plain object it was made from (address 0); after
  \<^verbatim>\<open>v.valueOf().amount = 2\<close> the own properties of \<open>v\<close> are what they were, they still
  agree with those of the plain object, and \<^verbatim>\<open>v.equals\<close> of it returns \<^verbatim>\<open>false\<close>.
\<close>

lemma equals_follows_the_prototype:
  "fst (invoke no_host (Ref 10) ''valueOf'' [] (snd (create Money (Ref 0) h_money))) = Inr (Ref 5) \<and>
   fst (invoke no_host (Ref 10) ''equals'' [Ref 0] (snd (create Money (Ref 0) h_money))) =
     Inr (Bool True) \<and>
   data_of h_rewritten (Ref 10) = [(''amount'', Num (Fin 1)), (''currency'', Str ''USD'')] \<and>
   data_of h_rewritten (Ref 0) = [(''amount'', Num (Fin 1)), (''currency'', Str ''USD'')] \<and>
   fst (invoke no_host (Ref 10) ''equals'' [Ref 0] h_rewritten) = Inr (Bool False)"
proof -
  have a: "fst (invoke no_host (Ref 10) ''valueOf'' [] (snd (create Money (Ref 0) h_money))) =
      Inr (Ref 5)" by code_simp
  have b: "fst (invoke no_host (Ref 10) ''equals'' [Ref 0] (snd (create Money (Ref 0) h_money))) =
      Inr (Bool True)" by code_simp
  have c: "data_of h_rewritten (Ref 10) = [(''amount'', Num (Fin 1)), (''currency'', Str ''USD'')]"
    by code_simp
  have d: "data_of h_rewritten (Ref 0) = [(''amount'', Num (Fin 1)), (''currency'', Str ''USD'')]"
    by code_simp
  have e: "fst (invoke no_host (Ref 10) ''equals'' [Ref 0] h_rewritten) = Inr (Bool False)"
    by code_simp
  from a b c d e show ?thesis by blast
qed

section \<open>Round trip through \<open>valueOf\<close>\<close>

text \<open>
  C5, as the code has it. Let \<open>v\<close> be created by a primitive wrapper whose
  \<^verbatim>\<open>methodsFactory\<close> only allocates and returns no method named \<^verbatim>\<open>equals\<close> or
  \<^verbatim>\<open>valueOf\<close>. Then \<^verbatim>\<open>v.valueOf()\<close> is the validated value; and if \<^verbatim>\<open>create\<close> accepts
  that value again (its \<^verbatim>\<open>parse\<close> only allocating), \<^verbatim>\<open>create(v.valueOf()).equals(v)\<close>
  returns whether the value validated the second time is strictly equal to the first.
\<close>

theorem valueOf_round_trip_compares_validated:
  assumes prim: "vo_isPrimitive F"
    and al: "allocating (vo_methodsFactory F)"
    and alp: "allocating (parse (vo_schema F) vd)"
    and av: "avoids (vo_methodsFactory F) {''equals'', ''valueOf''}"
    and p1: "parse (vo_schema F) d h = (Inr vd, hp1)" and wf1: "wf_val hp1 vd"
    and c1: "create F d h = (Inr v, h1)"
    and p2: "parse (vo_schema F) vd h1 = (Inr vd', hp2)" and wf2: "wf_val hp2 vd'"
    and c2: "create F vd h1 = (Inr v', h2)"
  shows "invoke r v ''valueOf'' [] h1 = (Inr vd, h1) \<and>
         valueOf_round_trip r F v h1 = (Inr (Bool (strict_eq vd' vd)), h2)"
proof -
  from create_shape [OF c1 p1 wf1 al] obtain bm1 m1 ha1 ms1 hb1 where
    v1: "v = Ref (m1 + 3)" and
    s1: "vo_at h1 (vo_isPrimitive F) vd (vo_name F) (spread hp1 vd) bm1 (length hp1) m1" and
    mf1: "vo_methodsFactory F ha1 = (Inr ms1, hb1)" and
    k1: "set (map fst bm1) = set (map fst (spread hb1 ms1))"
    by blast
  from create_shape [OF c2 p2 wf2 al] obtain bm2 m2 ha2 ms2 hb2 where
    v2: "v' = Ref (m2 + 3)" and
    s2: "vo_at h2 (vo_isPrimitive F) vd' (vo_name F) (spread hp2 vd') bm2 (length hp2) m2" and
    e2: "extends hp2 h2" and
    mf2: "vo_methodsFactory F ha2 = (Inr ms2, hb2)" and
    k2: "set (map fst bm2) = set (map fst (spread hb2 ms2))"
    by blast
  have s1p: "vo_at h1 True vd (vo_name F) (spread hp1 vd) bm1 (length hp1) m1"
    using s1 prim by simp
  have "extends h1 hp2" using alp p2 by (rule allocatingD)
  then have "extends h1 h2" using e2 by (rule extends_trans)
  with s1p have s1': "vo_at h2 True vd (vo_name F) (spread hp1 vd) bm1 (length hp1) m1"
    by (rule vo_at_extends)
  have s2': "vo_at h2 True vd' (vo_name F) (spread hp2 vd') bm2 (length hp2) m2"
    using s2 prim by simp
  have vf1: "''valueOf'' \<notin> set (map fst bm1)"
    unfolding k1 by (rule avoidsD [OF av mf1]) simp
  have eq2: "''equals'' \<notin> set (map fst bm2)"
    unfolding k2 by (rule avoidsD [OF av mf2]) simp
  have unwrap: "invoke r v ''valueOf'' [] h1 = (Inr vd, h1)"
    unfolding v1 by (simp add: vo_invoke_valueOf [OF s1p vf1] valueOf_body_def)
  have "valueOf_round_trip r F v h1 = invoke r v' ''equals'' [v] h2"
    by (simp add: valueOf_round_trip_def seq_def unwrap c2)
  also have "\<dots> = (Inr (Bool (strict_eq vd' vd)), h2)"
    unfolding v1 v2 by (rule vo_equals_vo_primitive [OF s2' s1' eq2 vf1])
  finally show ?thesis using unwrap by simp
qed

lemma number_schema_allocating: "allocating (parse number_schema d)"
  by (auto simp: allocating_def number_schema_def extends_refl split: jsval.splits jsnum.splits)

text \<open>The theorem at the wrapper of the number 5.\<close>

theorem valueOf_round_trip_compares_validated_witness:
  "fst (create NumberVO (Num (Fin 5)) []) = Inr (Ref 8) \<and>
   fst (valueOf_round_trip no_host NumberVO (Ref 8) (snd (create NumberVO (Num (Fin 5)) []))) =
     Inr (Bool True)"
proof -
  define h1 where "h1 = snd (create NumberVO (Num (Fin 5)) [])"
  define h2 where "h2 = snd (create NumberVO (Num (Fin 5)) h1)"
  have prim: "vo_isPrimitive NumberVO" by (simp add: NumberVO_def)
  have al: "allocating (vo_methodsFactory NumberVO)"
    by (simp add: NumberVO_def no_methods_allocating)
  have alp: "allocating (parse (vo_schema NumberVO) (Num (Fin 5)))"
    by (simp add: NumberVO_def number_schema_allocating)
  have av: "avoids (vo_methodsFactory NumberVO) {''equals'', ''valueOf''}"
    by (simp add: NumberVO_def no_methods_avoids)
  have p: "parse (vo_schema NumberVO) (Num (Fin 5)) h = (Inr (Num (Fin 5)), h)" for h
    by (simp add: NumberVO_def number_schema_def)
  have wf: "wf_val h (Num (Fin 5))" for h by (simp add: wf_val_def)
  have c0: "fst (create NumberVO (Num (Fin 5)) []) = Inr (Ref 8)" by code_simp
  then have c1: "create NumberVO (Num (Fin 5)) [] = (Inr (Ref 8), h1)"
    unfolding h1_def by (rule pair_fst_snd)
  have "fst (create NumberVO (Num (Fin 5)) h1) = Inr (Ref 17)"
    unfolding h1_def by code_simp
  then have c2: "create NumberVO (Num (Fin 5)) h1 = (Inr (Ref 17), h2)"
    unfolding h2_def by (rule pair_fst_snd)
  from valueOf_round_trip_compares_validated [OF prim al alp av p wf c1 p wf c2, of no_host]
  have "valueOf_round_trip no_host NumberVO (Ref 8) h1 = (Inr (Bool True), h2)" by simp
  then have "fst (valueOf_round_trip no_host NumberVO (Ref 8) h1) = Inr (Bool True)" by simp
  with c0 show ?thesis unfolding h1_def by blast
qed

text \<open>
  C5 as stated fails: the wrapper of \<^verbatim>\<open>NaN\<close> is not equal to the wrapper made from its
  own \<^verbatim>\<open>valueOf()\<close>, and the wrapper of a text length cannot be made again from its
  \<^verbatim>\<open>valueOf()\<close> at all.
\<close>

theorem valueOf_round_trip_counterexample:
  "valueObject (primitive_options ''NotANumber'' nan_schema) = Inr NotANumber \<and>
   fst (create NotANumber (Num NaN) []) = Inr (Ref 8) \<and>
   fst (valueOf_round_trip no_host NotANumber (Ref 8) (snd (create NotANumber (Num NaN) []))) =
     Inr (Bool False) \<and>
   valueObject (primitive_options ''TextLength'' length_schema) = Inr TextLength \<and>
   fst (create TextLength (Str ''abc'') []) = Inr (Ref 8) \<and>
   fst (valueOf_round_trip no_host TextLength (Ref 8) (snd (create TextLength (Str ''abc'') []))) =
     Inl (ValidationError ''Invalid TextLength: Expected string''
            (ZodError [Issue ''Expected string'' []]) ''TextLength'' (Num (Fin 3)))"
proof -
  have a: "valueObject (primitive_options ''NotANumber'' nan_schema) = Inr NotANumber"
    by (simp add: valueObject_def primitive_options_def NotANumber_def)
  have b: "fst (create NotANumber (Num NaN) []) = Inr (Ref 8)" by code_simp
  have c: "fst (valueOf_round_trip no_host NotANumber (Ref 8)
      (snd (create NotANumber (Num NaN) []))) = Inr (Bool False)" by code_simp
  have d: "valueObject (primitive_options ''TextLength'' length_schema) = Inr TextLength"
    by (simp add: valueObject_def primitive_options_def TextLength_def)
  have e: "fst (create TextLength (Str ''abc'') []) = Inr (Ref 8)" by code_simp
  have f: "fst (valueOf_round_trip no_host TextLength (Ref 8)
      (snd (create TextLength (Str ''abc'') []))) =
     Inl (ValidationError ''Invalid TextLength: Expected string''
            (ZodError [Issue ''Expected string'' []]) ''TextLength'' (Num (Fin 3)))" by code_simp
  from a b c d e f show ?thesis by blast
qed

section \<open>What \<open>valueOf\<close> returns\<close>

text \<open>
  What \<^verbatim>\<open>valueOf()\<close> of a created object runs: the standard body, with the prototype as
  \<^verbatim>\<open>this\<close>. The prototype is another object than the one \<^verbatim>\<open>create\<close> returned, and it
  is not frozen.
\<close>

lemma valueOf_of_created:
  assumes al: "allocating (vo_methodsFactory F)"
    and av: "avoids (vo_methodsFactory F) {''valueOf''}"
    and p: "parse (vo_schema F) d h = (Inr vd, hp)" and wf: "wf_val hp vd"
    and c: "create F d h = (Inr v, h1)"
  shows "\<exists>pr. Ref pr \<noteq> v \<and> pr < length h1 \<and> \<not> frozen (h1 ! pr) \<and>
           invoke r v ''valueOf'' [] h1 =
             valueOf_body (vo_isPrimitive F) (if vo_isPrimitive F then vd else Undefined) vd
               (Ref pr) h1"
proof -
  from create_shape [OF c p wf al] obtain bm m ha ms hb where
    v: "v = Ref (m + 3)" and
    s: "vo_at h1 (vo_isPrimitive F) vd (vo_name F) (spread hp vd) bm (length hp) m" and
    mf: "vo_methodsFactory F ha = (Inr ms, hb)" and
    k: "set (map fst bm) = set (map fst (spread hb ms))"
    by blast
  have vf: "''valueOf'' \<notin> set (map fst bm)"
    unfolding k by (rule avoidsD [OF av mf]) simp
  have "Ref (length hp + 3) \<noteq> v" using vo_bounds(1) [OF s] by (simp add: v)
  moreover have "length hp + 3 < length h1" using vo_bounds [OF s] by simp
  moreover have "\<not> frozen (h1 ! (length hp + 3))" using s by (simp add: vo_at_def)
  moreover have "invoke r v ''valueOf'' [] h1 =
             valueOf_body (vo_isPrimitive F) (if vo_isPrimitive F then vd else Undefined) vd
               (Ref (length hp + 3)) h1"
    unfolding v by (rule vo_invoke_valueOf [OF s vf])
  ultimately show ?thesis by blast
qed

text \<open>
  C4 at a value object with two fields: \<^verbatim>\<open>valueOf()\<close> does not return the frozen object
  that \<^verbatim>\<open>create\<close> returned (address 10) but the prototype (address 5), which is not
  frozen.
\<close>

theorem valueOf_returns_the_prototype:
  "fst (create Money (Ref 0) h_money) = Inr (Ref 10) \<and>
   fst (invoke no_host (Ref 10) ''valueOf'' [] (snd (create Money (Ref 0) h_money))) =
     Inr (Ref 5) \<and>
   frozen (snd (create Money (Ref 0) h_money) ! 10) \<and>
   \<not> frozen (snd (create Money (Ref 0) h_money) ! 5)"
proof -
  have a: "fst (create Money (Ref 0) h_money) = Inr (Ref 10)" by code_simp
  have b: "fst (invoke no_host (Ref 10) ''valueOf'' [] (snd (create Money (Ref 0) h_money))) =
     Inr (Ref 5)" by code_simp
  have c: "frozen (snd (create Money (Ref 0) h_money) ! 10)" by code_simp
  have d: "\<not> frozen (snd (create Money (Ref 0) h_money) ! 5)" by code_simp
  from a b c d show ?thesis by blast
qed

section \<open>Membership in the schema of a factory\<close>

text \<open>
  C7, as the code has it: the schema accepts \<open>v\<close> exactly when \<open>v\<close> is an object with a
  function \<^verbatim>\<open>equals\<close> and the round trip through the factory succeeds and compares
  equal; it rejects everything else with one issue.
\<close>

theorem specific_schema_membership:
  assumes "specificValueObjectSchema r (factory_object F) = Inr S"
  shows "fst (parse S v h) =
           (if instanceof_Object h v \<and> typeof h (get h v ''equals'') = ''function'' \<and>
               round_trip_equal r F v h
            then Inr v
            else Inl (ZodError [Issue ''Expected a ValueObject'' []]))"
proof -
  let ?chain = "seq (invoke r v ''valueOf'' []) (\<lambda>unwrapped.
           seq (create F unwrapped) (\<lambda>recreated. invoke r recreated ''equals'' [v]))"
  from assms have S: "S = valueObjectSchema
      \<lparr>typeName = Some ''ValueObject'', typeCheck = Some (recreate_check r (create F))\<rparr>"
    by (simp add: specificValueObjectSchema_def factory_object_def)
  obtain res h' where ch: "?chain h = (res, h')" by (cases "?chain h")
  show ?thesis
  proof (cases "instanceof_Object h v \<and> typeof h (get h v ''equals'') = ''function''")
    case False
    then show ?thesis
      by (auto simp: S valueObjectSchema_def z_custom_def seq_def Let_def)
  next
    case True
    then show ?thesis using ch
      by (cases res)
         (auto simp: S valueObjectSchema_def z_custom_def seq_def Let_def recreate_check_def
            round_trip_equal_def)
  qed
qed

text \<open>
  The theorem at the schema of \<open>Money\<close>: it accepts the plain object with the fields of a
  \<open>Money\<close> and a function \<^verbatim>\<open>equals\<close>, and rejects the same fields without \<^verbatim>\<open>equals\<close>.
\<close>

theorem specific_schema_membership_witness:
  "(case specificValueObjectSchema no_host (factory_object Money) of
      Inr S \<Rightarrow> fst (parse S (Ref 0) h_duck) = Inr (Ref 0) \<and>
               fst (parse S (Ref 0) h_money) = Inl (ZodError [Issue ''Expected a ValueObject'' []])
    | Inl e \<Rightarrow> False)"
proof -
  obtain S where S: "specificValueObjectSchema no_host (factory_object Money) = Inr S"
    by (simp add: specificValueObjectSchema_def factory_object_def)
  have a: "instanceof_Object h_duck (Ref 0)" by code_simp
  have b: "typeof h_duck (get h_duck (Ref 0) ''equals'') = ''function''" by code_simp
  have c: "round_trip_equal no_host Money (Ref 0) h_duck" by code_simp
  have d: "typeof h_money (get h_money (Ref 0) ''equals'') \<noteq> ''function''" by code_simp
  from specific_schema_membership [OF S, of "Ref 0" h_duck] a b c
  have "fst (parse S (Ref 0) h_duck) = Inr (Ref 0)" by simp
  moreover from specific_schema_membership [OF S, of "Ref 0" h_money] d
  have "fst (parse S (Ref 0) h_money) = Inl (ZodError [Issue ''Expected a ValueObject'' []])"
    by simp
  ultimately show ?thesis by (simp add: S)
qed

text \<open>
  C7 as stated fails: for the string \<^verbatim>\<open>'abc'\<close> the round trip through the string wrapper
  succeeds and compares equal, and the schema rejects it.
\<close>

theorem specific_schema_membership_counterexample:
  "round_trip_equal no_host StringVO (Str ''abc'') [] \<and>
   (case specificValueObjectSchema no_host (factory_object StringVO) of
      Inr S \<Rightarrow> fst (parse S (Str ''abc'') []) = Inl (ZodError [Issue ''Expected a ValueObject'' []])
    | Inl e \<Rightarrow> False)"
proof -
  have a: "round_trip_equal no_host StringVO (Str ''abc'') []" by code_simp
  have b: "(case specificValueObjectSchema no_host (factory_object StringVO) of
      Inr S \<Rightarrow> fst (parse S (Str ''abc'') []) = Inl (ZodError [Issue ''Expected a ValueObject'' []])
    | Inl e \<Rightarrow> False)" by code_simp
  from a b show ?thesis by blast
qed

end
